theory Spec2Isabelle
  imports Complex_Main "HOL-Library.Sublist"
begin

section \<open>Text\<close>

text \<open>
  A Python string is modelled as a list of 8-bit characters, read as the code points 0 to
  255 (Latin-1). On these, \<open>str.lower\<close> maps \<open>A-Z\<close>, \<open>0xC0-0xD6\<close> and \<open>0xD8-0xDE\<close> to the
  character 32 places on; the regular-expression class \<open>\w\<close> holds the characters that
  are alphanumeric for Python (\<open>str.isalnum\<close>) and the underscore; \<open>\d\<close> is \<open>[0-9]\<close>.
\<close>

definition code :: "char \<Rightarrow> nat" where
  "code c = of_char c"

definition in_range :: "char \<Rightarrow> char \<Rightarrow> char \<Rightarrow> bool" where
  "in_range lo hi c = (code lo \<le> code c \<and> code c \<le> code hi)"

definition is_upper :: "char \<Rightarrow> bool" where
  "is_upper c =
     (in_range CHR ''A'' CHR ''Z'' c \<or> in_range (CHR 0xC0) (CHR 0xD6) c
      \<or> in_range (CHR 0xD8) (CHR 0xDE) c)"

definition lower_char :: "char \<Rightarrow> char" where
  "lower_char c = (if is_upper c then char_of (code c + 32) else c)"

text \<open>The characters that are the lower case of another character, and that character.\<close>

definition has_upper :: "char \<Rightarrow> bool" where
  "has_upper c =
     (in_range CHR ''a'' CHR ''z'' c \<or> in_range (CHR 0xE0) (CHR 0xF6) c
      \<or> in_range (CHR 0xF8) (CHR 0xFE) c)"

definition upper_char :: "char \<Rightarrow> char" where
  "upper_char c = (if has_upper c then char_of (code c - 32) else c)"

definition lower :: "string \<Rightarrow> string" where
  "lower s = map lower_char s"

definition is_digit :: "char \<Rightarrow> bool" where
  "is_digit c = in_range CHR ''0'' CHR ''9'' c"

definition is_word :: "char \<Rightarrow> bool" where
  "is_word c =
     (in_range CHR ''0'' CHR ''9'' c \<or> in_range CHR ''A'' CHR ''Z'' c \<or> c = CHR ''_''
      \<or> in_range CHR ''a'' CHR ''z'' c \<or> c = CHR 0xAA \<or> in_range (CHR 0xB2) (CHR 0xB3) c
      \<or> c = CHR 0xB5 \<or> in_range (CHR 0xB9) (CHR 0xBA) c \<or> in_range (CHR 0xBC) (CHR 0xBE) c
      \<or> in_range (CHR 0xC0) (CHR 0xD6) c \<or> in_range (CHR 0xD8) (CHR 0xF6) c
      \<or> in_range (CHR 0xF8) (CHR 0xFF) c)"

section \<open>Regular expressions\<close>

text \<open>
  The patterns of \<open>src/app.py\<close> use literals, bracket classes (\<open>Cls\<close>, a list of
  character ranges: \<open>[a-f0-9\-]\<close> is \<open>[(a, f), (0, 9), (-, -)]\<close>), the word boundary
  \<open>\b\<close>, concatenation, alternation, greedy bounded and unbounded repetition, and
  capturing groups. \<open>Grp i r\<close> is the capturing group that Python numbers \<open>i\<close> (groups
  are numbered by their opening parenthesis); a non-capturing group \<open>(?:r)\<close> is just \<open>r\<close>.
\<close>

datatype regex =
    Eps
  | Lit char
  | Cls "(char \<times> char) list"
  | WordB
  | Seq regex regex
  | Alt regex regex
  | Rep nat "nat option" regex
  | Grp nat regex

text \<open>
  A matcher state: the character before the current position (\<open>None\<close> at the start of
  the text), the text still to read, and the groups captured so far (latest first).
\<close>

type_synonym mstate = "char option \<times> string \<times> (nat \<times> string) list"

definition rest :: "mstate \<Rightarrow> string" where
  "rest s = fst (snd s)"

definition caps :: "mstate \<Rightarrow> (nat \<times> string) list" where
  "caps s = snd (snd s)"

definition same_char :: "bool \<Rightarrow> char \<Rightarrow> char \<Rightarrow> bool" where
  "same_char ic c x = (if ic then lower_char c = lower_char x else c = x)"

definition in_ranges :: "(char \<times> char) list \<Rightarrow> char \<Rightarrow> bool" where
  "in_ranges rs x = list_ex (\<lambda>(lo, hi). in_range lo hi x) rs"

text \<open>
  Under \<open>re.IGNORECASE\<close> the class is compiled to the lower case of its members and the
  character is lower-cased before the test: a character is in the class when the class
  holds its lower case or the character of which that is the lower case.
\<close>

definition in_class :: "bool \<Rightarrow> (char \<times> char) list \<Rightarrow> char \<Rightarrow> bool" where
  "in_class ic rs x =
     (if ic then in_ranges rs (lower_char x) \<or> in_ranges rs (upper_char (lower_char x))
      else in_ranges rs x)"

definition word_before :: "char option \<Rightarrow> bool" where
  "word_before p = (case p of None \<Rightarrow> False | Some c \<Rightarrow> is_word c)"

definition word_after :: "string \<Rightarrow> bool" where
  "word_after xs = (case xs of [] \<Rightarrow> False | x # _ \<Rightarrow> is_word x)"

text \<open>
  Greedy repetition of a matcher \<open>f\<close>: at least \<open>lo\<close> and at most \<open>hi\<close> further
  rounds. One more round is tried first; stopping here is the fallback.
\<close>

fun iter :: "(mstate \<Rightarrow> mstate list) \<Rightarrow> nat \<Rightarrow> nat \<Rightarrow> mstate \<Rightarrow> mstate list" where
  "iter f lo 0 s = (if lo = 0 then [s] else [])"
| "iter f lo (Suc hi) s =
     concat (map (iter f (lo - 1) hi) (f s)) @ (if lo = 0 then [s] else [])"

text \<open>
  The backtracking matcher: every way the pattern matches at the current position, in the
  order in which Python's engine tries them, so the head of the list is the match Python
  reports. \<open>ic\<close> is the flag \<open>re.IGNORECASE\<close>. An unbounded repetition runs at most
  \<open>lo\<close> plus the number of characters left rounds: every repeated pattern of the program
  reads at least one character per round.
\<close>

fun matches :: "bool \<Rightarrow> regex \<Rightarrow> mstate \<Rightarrow> mstate list" where
  "matches ic Eps s = [s]"
| "matches ic (Lit c) (p, [], g) = []"
| "matches ic (Lit c) (p, x # xs, g) = (if same_char ic c x then [(Some x, xs, g)] else [])"
| "matches ic (Cls rs) (p, [], g) = []"
| "matches ic (Cls rs) (p, x # xs, g) = (if in_class ic rs x then [(Some x, xs, g)] else [])"
| "matches ic WordB (p, xs, g) = (if word_before p \<noteq> word_after xs then [(p, xs, g)] else [])"
| "matches ic (Seq a b) s = concat (map (matches ic b) (matches ic a s))"
| "matches ic (Alt a b) s = matches ic a s @ matches ic b s"
| "matches ic (Rep lo hi r) s =
     iter (matches ic r) lo (case hi of None \<Rightarrow> lo + length (rest s) | Some h \<Rightarrow> h) s"
| "matches ic (Grp i r) (p, xs, g) =
     map (\<lambda>(p', xs', g'). (p', xs', (i, take (length xs - length xs') xs) # g'))
       (matches ic r (p, xs, g))"

text \<open>The characters that some literal or class of a pattern reads.\<close>

primrec consumes :: "bool \<Rightarrow> regex \<Rightarrow> char \<Rightarrow> bool" where
  "consumes ic Eps x = False"
| "consumes ic (Lit c) x = same_char ic c x"
| "consumes ic (Cls rs) x = in_class ic rs x"
| "consumes ic WordB x = False"
| "consumes ic (Seq a b) x = (consumes ic a x \<or> consumes ic b x)"
| "consumes ic (Alt a b) x = (consumes ic a x \<or> consumes ic b x)"
| "consumes ic (Rep lo hi r) x = consumes ic r x"
| "consumes ic (Grp i r) x = consumes ic r x"

text \<open>The numbers of the capturing groups of a pattern, in the order of their opening.\<close>

primrec group_ids :: "regex \<Rightarrow> nat list" where
  "group_ids Eps = []"
| "group_ids (Lit c) = []"
| "group_ids (Cls cs) = []"
| "group_ids WordB = []"
| "group_ids (Seq a b) = group_ids a @ group_ids b"
| "group_ids (Alt a b) = group_ids a @ group_ids b"
| "group_ids (Rep lo hi r) = group_ids r"
| "group_ids (Grp i r) = i # group_ids r"

text \<open>
  What \<open>re.findall\<close> puts in its list for one match: the whole match when the pattern
  has no capturing group, the group when it has one, and the tuple of all groups when it
  has several (a group that took no part in the match gives the empty string).
\<close>

datatype pyval = Str string | Tup "string list"

definition group_text :: "mstate \<Rightarrow> nat \<Rightarrow> string" where
  "group_text s i = (case map_of (caps s) i of None \<Rightarrow> [] | Some v \<Rightarrow> v)"

definition result_of :: "regex \<Rightarrow> string \<Rightarrow> mstate \<Rightarrow> pyval" where
  "result_of r xs s =
     (case group_ids r of
        [] \<Rightarrow> Str (take (length xs - length (rest s)) xs)
      | [i] \<Rightarrow> Str (group_text s i)
      | i # j # ks \<Rightarrow> Tup (map (group_text s) (i # j # ks)))"

text \<open>
  \<open>re.findall\<close>: scan the text from left to right; at a position where the pattern
  matches, report the match and go on behind it (\<open>skip\<close> counts the characters of the
  last match still to pass over); elsewhere move on by one character.
\<close>

fun findall_from :: "bool \<Rightarrow> regex \<Rightarrow> nat \<Rightarrow> char option \<Rightarrow> string \<Rightarrow> pyval list" where
  "findall_from ic r skip prev [] =
     (if 0 < skip then []
      else case matches ic r (prev, [], []) of [] \<Rightarrow> [] | s # _ \<Rightarrow> [result_of r [] s])"
| "findall_from ic r skip prev (x # xs) =
     (if 0 < skip then findall_from ic r (skip - 1) (Some x) xs
      else case matches ic r (prev, x # xs, []) of
             [] \<Rightarrow> findall_from ic r 0 (Some x) xs
           | s # _ \<Rightarrow> result_of r (x # xs) s
                # findall_from ic r (length (x # xs) - length (rest s) - 1) (Some x) xs)"

definition findall :: "bool \<Rightarrow> regex \<Rightarrow> string \<Rightarrow> pyval list" where
  "findall ic r text = findall_from ic r 0 None text"

text \<open>\<open>re.search\<close>, read as a truth value: the pattern matches at some position.\<close>

fun search_from :: "bool \<Rightarrow> regex \<Rightarrow> char option \<Rightarrow> string \<Rightarrow> bool" where
  "search_from ic r prev [] = (matches ic r (prev, [], []) \<noteq> [])"
| "search_from ic r prev (x # xs) =
     (matches ic r (prev, x # xs, []) \<noteq> [] \<or> search_from ic r (Some x) xs)"

definition search :: "bool \<Rightarrow> regex \<Rightarrow> string \<Rightarrow> bool" where
  "search ic r text = search_from ic r None text"

text \<open>Pattern builders: a sequence, a literal string (\<open>re.escape\<close>), alternatives.\<close>

definition seqs :: "regex list \<Rightarrow> regex" where
  "seqs rs = foldr Seq rs Eps"

definition lits :: "string \<Rightarrow> regex" where
  "lits s = seqs (map Lit s)"

fun alts :: "regex list \<Rightarrow> regex" where
  "alts [] = Eps"
| "alts [r] = r"
| "alts (r # rs) = Alt r (alts rs)"

section \<open>Configuration\<close>

text \<open>\<open>Settings.THREAT_KEYWORDS\<close>, a dictionary in its order of insertion.\<close>

definition THREAT_KEYWORDS :: "(string \<times> string list) list" where
  "THREAT_KEYWORDS =
    [(''critical'',
       [''zero-day'', ''0day'', ''critical vulnerability'', ''ransomware'',
        ''data breach'', ''supply chain attack'', ''rce'', ''remote code execution'',
        ''critical security flaw'', ''emergency patch'', ''actively exploited'']),
     (''high'',
       [''vulnerability'', ''exploit'', ''malware'', ''phishing'', ''apt'',
        ''backdoor'', ''trojan'', ''sql injection'', ''privilege escalation'',
        ''security flaw'', ''code execution'', ''buffer overflow'']),
     (''medium'',
       [''security update'', ''patch'', ''warning'', ''alert'', ''mitigation'',
        ''workaround'', ''security advisory'', ''authentication bypass'',
        ''information disclosure'', ''denial of service'']),
     (''low'',
       [''security news'', ''announcement'', ''report'', ''advisory'',
        ''awareness'', ''security tip'', ''best practices''])]"

definition MAX_ARTICLES_PER_SOURCE :: nat where
  "MAX_ARTICLES_PER_SOURCE = 20"

section \<open>The threat analyzer\<close>

datatype ThreatLevel = LOW | MEDIUM | HIGH | CRITICAL

datatype error =
    KeyError
  | AttributeError
  | ValueError
  | ZeroDivisionError
  | IntegrityError
  | OperationalError
  | RequestException

text \<open>The pattern \<open>r'\b' + re.escape(keyword.lower()) + r'\b'\<close>.\<close>

definition keyword_pattern :: "string \<Rightarrow> regex" where
  "keyword_pattern keyword = Seq WordB (Seq (lits (lower keyword)) WordB)"

text \<open>The inner loop of \<open>analyze_threat_level\<close>: \<open>score += matches\<close> for every keyword.\<close>

fun score_keywords :: "string list \<Rightarrow> string \<Rightarrow> nat \<Rightarrow> nat" where
  "score_keywords [] text score = score"
| "score_keywords (keyword # keywords) text score =
     score_keywords keywords text
       (score + length (findall False (keyword_pattern keyword) text))"

text \<open>The outer loop: the dictionary \<open>scores\<close>, one entry per level of the table.\<close>

fun level_scores :: "(string \<times> string list) list \<Rightarrow> string \<Rightarrow> (string \<rightharpoonup> nat) \<Rightarrow> (string \<rightharpoonup> nat)" where
  "level_scores [] text scores = scores"
| "level_scores ((level, keywords) # table) text scores =
     level_scores table text (scores(level \<mapsto> score_keywords keywords text 0))"

text \<open>
  \<open>ThreatAnalyzer.analyze_threat_level\<close>, for an analyzer whose \<open>threat_keywords\<close> is
  \<open>table\<close>. The text is \<open>f"{title} {content}".lower()\<close>: title and content joined by
  one space. \<open>scores["critical"]\<close> raises \<open>KeyError\<close> when the table has no such level.
  The confidence is the quotient itself; Python computes the nearest double to it.
\<close>

definition get_score :: "(string \<rightharpoonup> nat) \<Rightarrow> string \<Rightarrow> error + nat" where
  "get_score scores level = (case scores level of None \<Rightarrow> Inl KeyError | Some n \<Rightarrow> Inr n)"

definition analyze_with ::
  "(string \<times> string list) list \<Rightarrow> string \<Rightarrow> string \<Rightarrow> error + (ThreatLevel \<times> rat)" where
  "analyze_with table title content =
     (let text = lower (title @ '' '' @ content);
          scores = level_scores table text Map.empty
      in case get_score scores ''critical'' of
           Inl e \<Rightarrow> Inl e
         | Inr c \<Rightarrow>
            (if 0 < c then Inr (CRITICAL, min (of_nat c / 3) 1)
             else (case get_score scores ''high'' of
               Inl e \<Rightarrow> Inl e
             | Inr h \<Rightarrow>
                (if 0 < h then Inr (HIGH, min (of_nat h / 2) 1)
                 else (case get_score scores ''medium'' of
                   Inl e \<Rightarrow> Inl e
                 | Inr m \<Rightarrow>
                    (if 0 < m then Inr (MEDIUM, min (of_nat m / (3 / 2)) 1)
                     else Inr (LOW, 3 / 10)))))))"

definition analyze_threat_level :: "string \<Rightarrow> string \<Rightarrow> error + (ThreatLevel \<times> rat)" where
  "analyze_threat_level title content = analyze_with THREAT_KEYWORDS title content"

text \<open>
  The number of word-boundary occurrences of one keyword in a text, the count of a whole
  tier, and the keyword list of a level of \<open>THREAT_KEYWORDS\<close>.
\<close>

definition keyword_count :: "string \<Rightarrow> string \<Rightarrow> nat" where
  "keyword_count text keyword = length (findall False (keyword_pattern keyword) text)"

definition tier_count :: "string list \<Rightarrow> string \<Rightarrow> nat" where
  "tier_count kws text = sum_list (map (keyword_count text) kws)"

definition tier :: "string \<Rightarrow> string list" where
  "tier level = (case map_of THREAT_KEYWORDS level of None \<Rightarrow> [] | Some kws \<Rightarrow> kws)"

text \<open>
  The count as the specification words it, without the pattern matcher. A word boundary
  lies between two pieces of a text when exactly one of the two characters next to the cut
  is a word character. A keyword occurs at position \<open>i\<close> of a text when the text goes on
  with the keyword there and word boundaries lie before and behind it. The count of a
  keyword is the number of positions at which it occurs, the count of a tier the sum over
  its keywords.
\<close>

definition boundary :: "string \<Rightarrow> string \<Rightarrow> bool" where
  "boundary before behind =
     ((before \<noteq> [] \<and> is_word (last before)) \<noteq> (behind \<noteq> [] \<and> is_word (hd behind)))"

definition occurs_at :: "string \<Rightarrow> string \<Rightarrow> nat \<Rightarrow> bool" where
  "occurs_at kw text i =
     (prefix kw (drop i text)
      \<and> boundary (take i text) (drop i text)
      \<and> boundary (take (i + length kw) text) (drop (i + length kw) text))"

definition occurrences :: "string \<Rightarrow> string \<Rightarrow> nat" where
  "occurrences kw text = length (filter (occurs_at kw text) [0..<Suc (length text)])"

definition tier_occurrences :: "string \<Rightarrow> string \<Rightarrow> nat" where
  "tier_occurrences level text = sum_list (map (\<lambda>kw. occurrences kw text) (tier level))"

text \<open>A keyword overlaps itself when a proper, non-empty end of it is also its beginning.\<close>

definition self_overlap :: "string \<Rightarrow> bool" where
  "self_overlap kw = list_ex (\<lambda>j. prefix (drop j kw) kw) [1..<length kw]"

text \<open>The character before a position, given the text before it.\<close>

definition last_char :: "string \<Rightarrow> char option" where
  "last_char pre = (if pre = [] then None else Some (last pre))"

subsection \<open>Indicators of compromise\<close>

text \<open>\<open>ThreatAnalyzer.ioc_patterns\<close>, in the dictionary's order.\<close>

definition alnum :: "(char \<times> char) list" where
  "alnum = [(CHR ''a'', CHR ''z''), (CHR ''A'', CHR ''Z''), (CHR ''0'', CHR ''9'')]"

definition alnum_dash :: "(char \<times> char) list" where
  "alnum_dash = alnum @ [(CHR ''-'', CHR ''-'')]"

definition hex :: "(char \<times> char) list" where
  "hex = [(CHR ''a'', CHR ''f''), (CHR ''A'', CHR ''F''), (CHR ''0'', CHR ''9'')]"

definition digit :: "(char \<times> char) list" where
  "digit = [(CHR ''0'', CHR ''9'')]"

definition chars :: "string \<Rightarrow> (char \<times> char) list" where
  "chars s = map (\<lambda>c. (c, c)) s"

text \<open>\<open>\b(?:[0-9]{1,3}\.){3}[0-9]{1,3}\b\<close>\<close>

definition ip_pattern :: regex where
  "ip_pattern =
     seqs [WordB,
           Rep 3 (Some 3) (Seq (Rep 1 (Some 3) (Cls digit)) (Lit CHR ''.'')),
           Rep 1 (Some 3) (Cls digit),
           WordB]"

text \<open>
  \<open>[a-zA-Z0-9]([a-zA-Z0-9\-]{0,61}[a-zA-Z0-9])?\<close>, one label of a host name; its
  optional tail is the capturing group \<open>i\<close>.
\<close>

definition label :: "nat \<Rightarrow> regex" where
  "label i =
     Seq (Cls alnum)
       (Rep 0 (Some 1) (Grp i (Seq (Rep 0 (Some 61) (Cls alnum_dash)) (Cls alnum))))"

text \<open>
  \<open>\b[a-zA-Z0-9]([a-zA-Z0-9\-]{0,61}[a-zA-Z0-9])?(\.[a-zA-Z0-9]([a-zA-Z0-9\-]{0,61}[a-zA-Z0-9])?)*\.[a-zA-Z]{2,}\b\<close>:
  three capturing groups.
\<close>

definition domain_pattern :: regex where
  "domain_pattern =
     seqs [WordB,
           label 1,
           Rep 0 None (Grp 2 (Seq (Lit CHR ''.'') (label 3))),
           Lit CHR ''.'',
           Rep 2 None (Cls [(CHR ''a'', CHR ''z''), (CHR ''A'', CHR ''Z'')]),
           WordB]"

text \<open>\<open>\b[a-fA-F0-9]{32}\b\<close> and \<open>\b[a-fA-F0-9]{64}\b\<close>\<close>

definition hash_pattern :: "nat \<Rightarrow> regex" where
  "hash_pattern n = seqs [WordB, Rep n (Some n) (Cls hex), WordB]"

text \<open>\<open>CVE-\d{4}-\d{4,}\<close>\<close>

definition cve_pattern :: regex where
  "cve_pattern =
     seqs [lits ''CVE-'', Rep 4 (Some 4) (Cls digit), Lit CHR ''-'', Rep 4 None (Cls digit)]"

text \<open>\<open>\b[A-Za-z0-9._%+-]+@[A-Za-z0-9.-]+\.[A-Z|a-z]{2,}\b\<close>\<close>

definition email_pattern :: regex where
  "email_pattern =
     seqs [WordB,
           Rep 1 None (Cls (alnum @ chars ''._%+-'')),
           Lit CHR ''@'',
           Rep 1 None (Cls (alnum @ chars ''.-'')),
           Lit CHR ''.'',
           Rep 2 None (Cls ([(CHR ''A'', CHR ''Z'')] @ chars ''|'' @ [(CHR ''a'', CHR ''z'')])),
           WordB]"

definition ioc_patterns :: "(string \<times> regex) list" where
  "ioc_patterns =
     [(''ip'', ip_pattern),
      (''domain'', domain_pattern),
      (''hash_md5'', hash_pattern 32),
      (''hash_sha256'', hash_pattern 64),
      (''cve'', cve_pattern),
      (''email'', email_pattern)]"

text \<open>
  \<open>str.split\<close> on one character; \<open>str.isdigit\<close>, which holds the digits \<open>0-9\<close> and
  the superscripts \<open>0xB2\<close>, \<open>0xB3\<close>, \<open>0xB9\<close>; and \<open>int\<close> of a string for which
  \<open>isdigit\<close> holds, which raises \<open>ValueError\<close> on a superscript.
\<close>

fun split_on :: "char \<Rightarrow> string \<Rightarrow> string list" where
  "split_on d [] = [[]]"
| "split_on d (x # xs) =
     (if x = d then [] # split_on d xs
      else (case split_on d xs of [] \<Rightarrow> [[x]] | p # ps \<Rightarrow> (x # p) # ps))"

definition isdigit_char :: "char \<Rightarrow> bool" where
  "isdigit_char c =
     (in_range CHR ''0'' CHR ''9'' c \<or> in_range (CHR 0xB2) (CHR 0xB3) c \<or> c = CHR 0xB9)"

definition isdigit :: "string \<Rightarrow> bool" where
  "isdigit s = (s \<noteq> [] \<and> list_all isdigit_char s)"

definition decimal :: "string \<Rightarrow> nat" where
  "decimal s = foldl (\<lambda>n c. 10 * n + (code c - 48)) 0 s"

definition int_of :: "string \<Rightarrow> error + nat" where
  "int_of s = (if list_all is_digit s then Inr (decimal s) else Inl ValueError)"

text \<open>
  \<open>len(value)\<close>, \<open>'.' in value\<close> and the text an f-string gives, for a string and for
  a tuple of strings (the \<open>repr\<close> of a tuple quotes each string).
\<close>

fun py_len :: "pyval \<Rightarrow> nat" where
  "py_len (Str s) = length s"
| "py_len (Tup gs) = length gs"

fun has_dot :: "pyval \<Rightarrow> bool" where
  "has_dot (Str s) = (CHR ''.'' \<in> set s)"
| "has_dot (Tup gs) = (''.'' \<in> set gs)"

fun join :: "string \<Rightarrow> string list \<Rightarrow> string" where
  "join sep [] = []"
| "join sep [s] = s"
| "join sep (s # t # ts) = s @ sep @ join sep (t # ts)"

fun py_str :: "pyval \<Rightarrow> string" where
  "py_str (Str s) = s"
| "py_str (Tup gs) = ''('' @ join '', '' (map (\<lambda>g. [CHR 0x27] @ g @ [CHR 0x27]) gs) @ '')''"

text \<open>
  \<open>all(0 <= int(part) <= 255 for part in parts if part.isdigit())\<close>: the parts are
  taken in turn, and the first one out of range ends the test.
\<close>

fun all_octets :: "string list \<Rightarrow> error + bool" where
  "all_octets [] = Inr True"
| "all_octets (part # parts) =
     (if isdigit part then
        (case int_of part of
           Inl e \<Rightarrow> Inl e
         | Inr n \<Rightarrow> if n \<le> 255 then all_octets parts else Inr False)
      else all_octets parts)"

text \<open>
  \<open>ThreatAnalyzer._validate_ioc\<close>. \<open>value.split\<close> exists for a string only; a tuple
  raises \<open>AttributeError\<close>.
\<close>

definition validate_ioc :: "string \<Rightarrow> pyval \<Rightarrow> error + bool" where
  "validate_ioc ioc_type v =
     (if ioc_type = ''ip'' then
        (case v of
           Str s \<Rightarrow> all_octets (split_on CHR ''.'' s)
         | Tup gs \<Rightarrow> Inl AttributeError)
      else if ioc_type = ''domain'' then Inr (4 < py_len v \<and> has_dot v)
      else Inr True)"

text \<open>
  The validity of an ip as the specification words it: every octet is in the range 0 to
  255. The octets of a dotted text are its pieces between the dots, read from left to
  right with the piece so far in \<open>cur\<close> (latest character first); the number of an octet is
  its value in base ten.
\<close>

fun octets_from :: "string \<Rightarrow> string \<Rightarrow> string list" where
  "octets_from cur [] = [rev cur]"
| "octets_from cur (x # xs) =
     (if x = CHR ''.'' then rev cur # octets_from [] xs else octets_from (x # cur) xs)"

definition octets :: "string \<Rightarrow> string list" where
  "octets s = octets_from [] s"

fun number_rev :: "string \<Rightarrow> nat" where
  "number_rev [] = 0"
| "number_rev (c # cs) = (code c - code CHR ''0'') + 10 * number_rev cs"

definition number :: "string \<Rightarrow> nat" where
  "number s = number_rev (rev s)"

definition octets_in_range :: "string \<Rightarrow> bool" where
  "octets_in_range s = list_all (\<lambda>octet. number octet \<le> 255) (octets s)"

text \<open>The inner loop of \<open>extract_iocs\<close>, over the matches of one pattern.\<close>

fun collect_iocs :: "string \<Rightarrow> pyval list \<Rightarrow> string list \<Rightarrow> error + string list" where
  "collect_iocs ioc_type [] iocs = Inr iocs"
| "collect_iocs ioc_type (v # vs) iocs =
     (case validate_ioc ioc_type v of
        Inl e \<Rightarrow> Inl e
      | Inr ok \<Rightarrow>
          collect_iocs ioc_type vs (if ok then iocs @ [ioc_type @ '':'' @ py_str v] else iocs))"

text \<open>The outer loop, over the patterns; \<open>re.findall(pattern, text, re.IGNORECASE)\<close>.\<close>

fun iocs_loop :: "(string \<times> regex) list \<Rightarrow> string \<Rightarrow> string list \<Rightarrow> error + string list" where
  "iocs_loop [] text iocs = Inr iocs"
| "iocs_loop ((ioc_type, pattern) # ps) text iocs =
     (case collect_iocs ioc_type (findall True pattern text) iocs of
        Inl e \<Rightarrow> Inl e
      | Inr iocs' \<Rightarrow> iocs_loop ps text iocs')"

text \<open>
  \<open>ThreatAnalyzer.extract_iocs\<close>. \<open>list(set(iocs))\<close> keeps one copy of every entry, in
  an order Python does not specify; \<open>remdups\<close> is one such order.
\<close>

definition extract_iocs :: "string \<Rightarrow> error + string list" where
  "extract_iocs text =
     (case iocs_loop ioc_patterns text [] of
        Inl e \<Rightarrow> Inl e
      | Inr iocs \<Rightarrow> Inr (remdups iocs))"

subsection \<open>Tags\<close>

text \<open>\<open>\b(w1|w2|...)\b\<close>\<close>

definition tag_pattern :: "string list \<Rightarrow> regex" where
  "tag_pattern ws = seqs [WordB, Grp 1 (alts (map lits ws)), WordB]"

definition tag_patterns :: "(string \<times> regex) list" where
  "tag_patterns =
     [(''malware'', tag_pattern [''malware'', ''virus'', ''trojan'', ''spyware'', ''rootkit'', ''worm'']),
      (''ransomware'', tag_pattern [''ransomware'', ''crypto'', ''encryption'']),
      (''phishing'', tag_pattern [''phishing'', ''social engineering'', ''scam'']),
      (''vulnerability'', tag_pattern [''vulnerability'', ''cve'', ''exploit'', ''zero-day'']),
      (''data-breach'', tag_pattern [''data breach'', ''leak'', ''stolen data'']),
      (''apt'', tag_pattern [''apt'', ''advanced persistent threat'']),
      (''mobile'', tag_pattern [''android'', ''ios'', ''mobile'', ''smartphone'']),
      (''cloud'', tag_pattern [''cloud'', ''aws'', ''azure'', ''google cloud'']),
      (''iot'', tag_pattern [''iot'', ''internet of things'']),
      (''cryptocurrency'', tag_pattern [''bitcoin'', ''cryptocurrency'', ''crypto'', ''blockchain''])]"

fun tags_loop :: "(string \<times> regex) list \<Rightarrow> string \<Rightarrow> string list \<Rightarrow> string list" where
  "tags_loop [] text tags = tags"
| "tags_loop ((tag, pattern) # ps) text tags =
     tags_loop ps text (if search True pattern text then tags @ [tag] else tags)"

text \<open>\<open>ThreatAnalyzer.extract_tags\<close>\<close>

definition extract_tags :: "string \<Rightarrow> string \<Rightarrow> string list" where
  "extract_tags title content = tags_loop tag_patterns (lower (title @ '' '' @ content)) []"

section \<open>The feed scraper\<close>

text \<open>
  An entry of a parsed feed. A text field is \<open>None\<close> when the entry has no such key
  (\<open>entry.get(key, '')\<close> then gives the empty string). \<open>e_published\<close> is the time
  \<open>datetime(*entry.published_parsed[:6])\<close> denotes, and \<open>None\<close> when the entry has no
  \<open>published_parsed\<close> or the constructor raises. Times are seconds on some clock.
\<close>

record entry =
  e_title :: "string option"
  e_summary :: "string option"
  e_link :: "string option"
  e_published :: "int option"

text \<open>
  The dictionary a scraper builds for one article and \<open>save_articles\<close> reads; a field is
  \<open>None\<close> when the dictionary has no such key.
\<close>

record article_data =
  d_title :: "string option"
  d_summary :: "string option"
  d_content :: "string option"
  d_url :: "string option"
  d_image_url :: "string option"
  d_source_name :: "string option"
  d_author :: "string option"
  d_published_date :: "int option"
  d_threat_level :: "string option"
  d_confidence_score :: "rat option"
  d_tags :: "string list option"
  d_iocs :: "string list option"

text \<open>\<open>dict.get(key, default)\<close>\<close>

definition get_or :: "'a option \<Rightarrow> 'a \<Rightarrow> 'a" where
  "get_or v d = (case v of None \<Rightarrow> d | Some x \<Rightarrow> x)"

text \<open>\<open>str.strip\<close>: it removes the characters for which \<open>str.isspace\<close> holds.\<close>

definition is_space :: "char \<Rightarrow> bool" where
  "is_space c =
     (in_range (CHR 0x09) (CHR 0x0D) c \<or> in_range (CHR 0x1C) (CHR '' '') c \<or> c = CHR 0x85
      \<or> c = CHR 0xA0)"

definition strip :: "string \<Rightarrow> string" where
  "strip s = rev (dropWhile is_space (rev (dropWhile is_space s)))"

text \<open>\<open>ThreatLevel.value\<close>\<close>

fun level_value :: "ThreatLevel \<Rightarrow> string" where
  "level_value LOW = ''low''"
| "level_value MEDIUM = ''medium''"
| "level_value HIGH = ''high''"
| "level_value CRITICAL = ''critical''"

text \<open>
  The loop of \<open>scrape_rss_feed\<close> over the entries it takes, \<open>articles\<close> being the list
  built so far. \<open>get_text\<close> is BeautifulSoup's \<open>get_text(strip=True)\<close> of the parsed
  summary and \<open>now\<close> the clock. An exception inside the body is caught and the entry left
  out.
\<close>

fun rss_entries ::
  "(string \<Rightarrow> string) \<Rightarrow> string \<Rightarrow> int \<Rightarrow> entry list \<Rightarrow> article_data list \<Rightarrow> article_data list" where
  "rss_entries get_text source_name now [] articles = articles"
| "rss_entries get_text source_name now (e # entries) articles =
     (let title = strip (get_or (e_title e) []);
          summary = strip (get_or (e_summary e) []);
          url = strip (get_or (e_link e) [])
      in if title = [] \<or> url = [] then rss_entries get_text source_name now entries articles
         else
          (let published_date = get_or (e_published e) now;
               summary = (if summary \<noteq> [] then get_text summary else summary);
               content = summary
           in case analyze_threat_level title content of
                Inl err \<Rightarrow> rss_entries get_text source_name now entries articles
              | Inr (threat_level, confidence) \<Rightarrow>
                 (case extract_iocs (title @ '' '' @ content) of
                    Inl err \<Rightarrow> rss_entries get_text source_name now entries articles
                  | Inr iocs \<Rightarrow>
                      rss_entries get_text source_name now entries
                        (articles @
                          [\<lparr>d_title = Some title, d_summary = Some summary,
                            d_content = Some content, d_url = Some url,
                            d_image_url = None, d_source_name = Some source_name,
                            d_author = None, d_published_date = Some published_date,
                            d_threat_level = Some (level_value threat_level),
                            d_confidence_score = Some confidence,
                            d_tags = Some (extract_tags title content),
                            d_iocs = Some iocs\<rparr>]))))"

text \<open>
  \<open>ScraperManager.scrape_rss_feed\<close>. \<open>response\<close> is what fetching and parsing the feed
  gives: the entries, or the error of the request, on which the source yields nothing.
\<close>

definition scrape_rss_feed ::
  "(string \<Rightarrow> string) \<Rightarrow> string \<Rightarrow> int \<Rightarrow> error + entry list \<Rightarrow> article_data list" where
  "scrape_rss_feed get_text source_name now response =
     (case response of
        Inl err \<Rightarrow> []
      | Inr entries \<Rightarrow>
          if entries = [] then []
          else rss_entries get_text source_name now (take MAX_ARTICLES_PER_SOURCE entries) [])"

section \<open>The database manager\<close>

text \<open>
  A row of the table \<open>threat_articles\<close>. \<open>tags\<close> and \<open>iocs\<close> hold the lists themselves;
  the program stores their JSON text, which is \<open>'[]'\<close> for the empty list only.
\<close>

record ThreatArticle =
  a_id :: nat
  a_title :: string
  a_summary :: string
  a_content :: string
  a_url :: string
  a_image_url :: "string option"
  a_source_name :: string
  a_author :: "string option"
  a_published_date :: int
  a_scraped_date :: int
  a_threat_level :: string
  a_confidence_score :: rat
  a_tags :: "string list"
  a_iocs :: "string list"
  a_views :: nat
  a_bookmarked :: bool

text \<open>
  A session on the database: the rows committed, the rows as the open transaction has
  them, and the objects added to the session and not yet flushed. The session is made with
  \<open>autoflush=False\<close>, so a query reads the transaction's rows and not the added objects.
\<close>

record session =
  stored :: "ThreatArticle list"
  txn :: "ThreatArticle list"
  added :: "ThreatArticle list"

text \<open>
  What the storage engine does during one call: whether the \<open>k\<close>-th \<open>SELECT\<close>, the
  \<open>k\<close>-th \<open>INSERT\<close> and the \<open>COMMIT\<close> succeed.
\<close>

record engine =
  select_ok :: "nat \<Rightarrow> bool"
  insert_ok :: "nat \<Rightarrow> bool"
  commit_ok :: bool

definition get_session :: "ThreatArticle list \<Rightarrow> session" where
  "get_session table = \<lparr>stored = table, txn = table, added = []\<rparr>"

definition rollback :: "session \<Rightarrow> session" where
  "rollback s = s\<lparr>txn := stored s, added := []\<rparr>"

text \<open>The body of the loop of \<open>save_articles\<close> that builds the new article.\<close>

definition new_article :: "int \<Rightarrow> article_data \<Rightarrow> ThreatArticle" where
  "new_article now d =
     \<lparr>a_id = 0,
      a_title = get_or (d_title d) [],
      a_summary = get_or (d_summary d) [],
      a_content = get_or (d_content d) [],
      a_url = get_or (d_url d) [],
      a_image_url = d_image_url d,
      a_source_name = get_or (d_source_name d) [],
      a_author = d_author d,
      a_published_date = get_or (d_published_date d) now,
      a_scraped_date = now,
      a_threat_level = get_or (d_threat_level d) ''medium'',
      a_confidence_score = get_or (d_confidence_score d) (1 / 2),
      a_tags = get_or (d_tags d) [],
      a_iocs = get_or (d_iocs d) [],
      a_views = 0,
      a_bookmarked = False\<rparr>"

text \<open>
  The loop of \<open>save_articles\<close>; \<open>k\<close> counts the queries. \<open>article_data['url']\<close> raises
  \<open>KeyError\<close> when the key is missing. An article whose url is found is passed over.
\<close>

fun save_loop ::
  "engine \<Rightarrow> int \<Rightarrow> nat \<Rightarrow> article_data list \<Rightarrow> session \<Rightarrow> nat \<Rightarrow> session \<times> (error + nat)" where
  "save_loop eng now k [] s saved_count = (s, Inr saved_count)"
| "save_loop eng now k (d # ds) s saved_count =
     (case d_url d of
        None \<Rightarrow> (s, Inl KeyError)
      | Some u \<Rightarrow>
          if \<not> select_ok eng k then (s, Inl OperationalError)
          else if u \<in> set (map a_url (txn s)) then save_loop eng now (Suc k) ds s saved_count
          else save_loop eng now (Suc k) ds
                 (s\<lparr>added := added s @ [new_article now d]\<rparr>) (Suc saved_count))"

text \<open>
  Flushing: every added object is inserted into the transaction's rows, with the next row
  id. The column \<open>url\<close> is unique: inserting a second row with a url raises
  \<open>IntegrityError\<close>, and the rows inserted before it stay in the transaction.
\<close>

definition next_id :: "ThreatArticle list \<Rightarrow> nat" where
  "next_id rows = Suc (fold max (map a_id rows) 0)"

fun flush_rows ::
  "engine \<Rightarrow> nat \<Rightarrow> ThreatArticle list \<Rightarrow> ThreatArticle list
     \<Rightarrow> ThreatArticle list \<times> ThreatArticle list \<times> error option" where
  "flush_rows eng k [] rows = (rows, [], None)"
| "flush_rows eng k (a # as) rows =
     (if \<not> insert_ok eng k then (rows, a # as, Some OperationalError)
      else if a_url a \<in> set (map a_url rows) then (rows, a # as, Some IntegrityError)
      else flush_rows eng (Suc k) as (rows @ [a\<lparr>a_id := next_id rows\<rparr>]))"

definition flush :: "engine \<Rightarrow> session \<Rightarrow> session \<times> error option" where
  "flush eng s =
     (case flush_rows eng 0 (added s) (txn s) of
        (rows, left, err) \<Rightarrow> (s\<lparr>txn := rows, added := left\<rparr>, err))"

text \<open>\<open>session.commit()\<close>: flush, then make the transaction's rows the committed ones.\<close>

definition commit :: "engine \<Rightarrow> session \<Rightarrow> session \<times> error option" where
  "commit eng s =
     (case flush eng s of
        (s', Some err) \<Rightarrow> (s', Some err)
      | (s', None) \<Rightarrow>
          if commit_ok eng then (s'\<lparr>stored := txn s'\<rparr>, None)
          else (s', Some OperationalError))"

text \<open>
  \<open>DatabaseManager.save_articles\<close>: the rows committed when the call is over, and the
  count it returns or the exception it raises again after \<open>session.rollback()\<close>.
\<close>

definition save_articles ::
  "engine \<Rightarrow> int \<Rightarrow> ThreatArticle list \<Rightarrow> article_data list \<Rightarrow> ThreatArticle list \<times> (error + nat)" where
  "save_articles eng now table articles_data =
     (case save_loop eng now 0 articles_data (get_session table) 0 of
        (s, Inl err) \<Rightarrow> (stored (rollback s), Inl err)
      | (s, Inr saved_count) \<Rightarrow>
          (case commit eng s of
             (s', Some err) \<Rightarrow> (stored (rollback s'), Inl err)
           | (s', None) \<Rightarrow> (stored s', Inr saved_count)))"

text \<open>
  An engine on which every statement succeeds, and the records of a batch that the loop
  adds to the session: those whose url no row of the table has.
\<close>

definition healthy :: engine where
  "healthy = \<lparr>select_ok = (\<lambda>k. True), insert_ok = (\<lambda>k. True), commit_ok = True\<rparr>"

definition fresh :: "ThreatArticle list \<Rightarrow> article_data list \<Rightarrow> article_data list" where
  "fresh table batch = filter (\<lambda>d. get_or (d_url d) [] \<notin> set (map a_url table)) batch"

text \<open>
  When a write succeeds: every record has a url, every statement of the engine succeeds,
  and no two of the records to insert have the same url.
\<close>

definition write_ok :: "engine \<Rightarrow> ThreatArticle list \<Rightarrow> article_data list \<Rightarrow> bool" where
  "write_ok eng table batch =
     (list_all (\<lambda>d. d_url d \<noteq> None) batch
      \<and> list_all (select_ok eng) [0..<length batch]
      \<and> list_all (insert_ok eng) [0..<length (fresh table batch)]
      \<and> distinct (map (\<lambda>d. get_or (d_url d) []) (fresh table batch))
      \<and> commit_ok eng)"

subsection \<open>Searching\<close>

record SearchFilters =
  f_keywords :: "string list option"
  f_threat_levels :: "string list option"
  f_sources :: "string list option"
  f_date_from :: "int option"
  f_date_to :: "int option"
  f_has_iocs :: "bool option"

record PaginatedResponse =
  r_items :: "ThreatArticle list"
  r_total :: int
  r_page :: int
  r_per_page :: int
  r_pages :: int
  r_has_next :: bool
  r_has_prev :: bool

text \<open>
  SQL's \<open>LIKE\<close>: in the pattern \<open>%\<close> stands for any run of characters and \<open>_\<close> for
  any one character. On SQLite, the database of \<open>Settings.DATABASE_URL\<close>, \<open>ilike\<close> is
  \<open>lower(column) LIKE lower(pattern)\<close>, and SQLite's \<open>lower\<close> changes the letters
  \<open>A-Z\<close> only.
\<close>

definition sql_lower_char :: "char \<Rightarrow> char" where
  "sql_lower_char c = (if in_range CHR ''A'' CHR ''Z'' c then char_of (code c + 32) else c)"

definition sql_lower :: "string \<Rightarrow> string" where
  "sql_lower s = map sql_lower_char s"

fun like :: "string \<Rightarrow> string \<Rightarrow> bool" where
  "like [] s = (s = [])"
| "like (p # ps) [] = (p = CHR ''%'' \<and> like ps [])"
| "like (p # ps) (c # cs) =
     (if p = CHR ''%'' then like ps (c # cs) \<or> like (p # ps) cs
      else (p = CHR ''_'' \<or> p = c) \<and> like ps cs)"

definition ilike :: "string \<Rightarrow> string \<Rightarrow> bool" where
  "ilike column pattern = like (sql_lower pattern) (sql_lower column)"

text \<open>The condition of one keyword: \<open>or_\<close> of the three \<open>ilike\<close> tests.\<close>

definition keyword_condition :: "string \<Rightarrow> ThreatArticle \<Rightarrow> bool" where
  "keyword_condition keyword a =
     (let keyword_like = ''%'' @ keyword @ ''%''
      in ilike (a_title a) keyword_like \<or> ilike (a_summary a) keyword_like
         \<or> ilike (a_content a) keyword_like)"

text \<open>
  The list \<open>conditions\<close> of \<open>search_articles\<close>, evaluated on one row. An empty list of
  keywords, levels or sources is falsy and adds no condition.
\<close>

definition conditions :: "SearchFilters \<Rightarrow> ThreatArticle \<Rightarrow> bool list" where
  "conditions filters a =
     (case f_keywords filters of
        None \<Rightarrow> []
      | Some kws \<Rightarrow> if kws = [] then [] else [list_ex (\<lambda>kw. keyword_condition kw a) kws])
     @ (case f_threat_levels filters of
          None \<Rightarrow> []
        | Some levels \<Rightarrow> if levels = [] then [] else [a_threat_level a \<in> set levels])
     @ (case f_sources filters of
          None \<Rightarrow> []
        | Some srcs \<Rightarrow> if srcs = [] then [] else [a_source_name a \<in> set srcs])
     @ (case f_date_from filters of None \<Rightarrow> [] | Some d \<Rightarrow> [d \<le> a_published_date a])
     @ (case f_date_to filters of None \<Rightarrow> [] | Some d \<Rightarrow> [a_published_date a \<le> d])
     @ (case f_has_iocs filters of
          None \<Rightarrow> []
        | Some b \<Rightarrow> [if b then a_iocs a \<noteq> [] else a_iocs a = []])"

text \<open>\<open>query.filter(and_(*conditions))\<close>, when there are conditions.\<close>

definition row_matches :: "SearchFilters \<Rightarrow> ThreatArticle \<Rightarrow> bool" where
  "row_matches filters a = list_all (\<lambda>b. b) (conditions filters a)"

text \<open>
  SQLite's \<open>OFFSET\<close> and \<open>LIMIT\<close>: a negative offset counts as zero, a negative limit
  as no limit.
\<close>

definition sql_offset :: "int \<Rightarrow> 'a list \<Rightarrow> 'a list" where
  "sql_offset n rows = drop (nat n) rows"

definition sql_limit :: "int \<Rightarrow> 'a list \<Rightarrow> 'a list" where
  "sql_limit n rows = (if n < 0 then rows else take (nat n) rows)"

text \<open>
  \<open>order_by(desc(published_date))\<close>; rows of one date keep the order of the table (SQL
  leaves their order open).
\<close>

definition order_by_date_desc :: "ThreatArticle list \<Rightarrow> ThreatArticle list" where
  "order_by_date_desc rows = sort_key (\<lambda>a. - a_published_date a) rows"

text \<open>
  \<open>DatabaseManager.search_articles\<close> on the committed rows. The items are the rows
  themselves: the response model has the fields of a row. \<open>//\<close> raises
  \<open>ZeroDivisionError\<close> for \<open>per_page = 0\<close>.
\<close>

definition search_articles ::
  "ThreatArticle list \<Rightarrow> SearchFilters \<Rightarrow> int \<Rightarrow> int \<Rightarrow> error + PaginatedResponse" where
  "search_articles table filters page per_page =
     (let query = filter (row_matches filters) table;
          total = int (length query);
          offset = (page - 1) * per_page;
          articles = sql_limit per_page (sql_offset offset (order_by_date_desc query))
      in if per_page = 0 then Inl ZeroDivisionError
         else
          (let pages = (total + per_page - 1) div per_page
           in Inr \<lparr>r_items = articles, r_total = total, r_page = page,
                    r_per_page = per_page, r_pages = pages,
                    r_has_next = (page < pages), r_has_prev = (1 < page)\<rparr>))"

section \<open>Sample data\<close>

text \<open>Rows, scraped records and a filter that filters nothing, for the examples.\<close>

definition sample_row :: "nat \<Rightarrow> string \<Rightarrow> string \<Rightarrow> string \<Rightarrow> int \<Rightarrow> ThreatArticle" where
  "sample_row i title url level date =
     \<lparr>a_id = i, a_title = title, a_summary = [], a_content = [], a_url = url,
      a_image_url = None, a_source_name = ''feed'', a_author = None,
      a_published_date = date, a_scraped_date = date, a_threat_level = level,
      a_confidence_score = 1 / 2, a_tags = [], a_iocs = [], a_views = 0,
      a_bookmarked = False\<rparr>"

definition sample_data :: "string \<Rightarrow> string \<Rightarrow> article_data" where
  "sample_data title url =
     \<lparr>d_title = Some title, d_summary = Some [], d_content = Some [], d_url = Some url,
      d_image_url = None, d_source_name = Some ''feed'', d_author = None,
      d_published_date = Some 7, d_threat_level = Some ''low'',
      d_confidence_score = Some (3 / 10), d_tags = Some [], d_iocs = Some []\<rparr>"

definition no_filters :: SearchFilters where
  "no_filters =
     \<lparr>f_keywords = None, f_threat_levels = None, f_sources = None, f_date_from = None,
      f_date_to = None, f_has_iocs = None\<rparr>"

text \<open>A table of one article, and an engine on which the second \<open>INSERT\<close> fails.\<close>

definition store1 :: "ThreatArticle list" where
  "store1 = [sample_row 1 ''old title'' ''a'' ''high'' 3]"

definition second_insert_fails :: engine where
  "second_insert_fails = \<lparr>select_ok = (\<lambda>k. True), insert_ok = (\<lambda>k. k < 1), commit_ok = True\<rparr>"

text \<open>A table of one low and 45 high articles, and the filter for the level high.\<close>

definition sample45 :: "ThreatArticle list" where
  "sample45 = sample_row 0 ''t'' ''u'' ''low'' 100
      # map (\<lambda>i. sample_row (Suc i) ''t'' ''u'' ''high'' (int i)) [0..<45]"

definition high_only :: SearchFilters where
  "high_only = no_filters\<lparr>f_threat_levels := Some [''high'']\<rparr>"

section \<open>Evaluation\<close>

text \<open>
  Tables for evaluating on concrete texts: the codes, the two cases and the classes of the
  printable ASCII characters and of the letters \<open>0xC9\<close> and \<open>0xE9\<close>.
\<close>

lemma code_simps:
  "code (CHR '' '') = 32" "code (CHR ''!'') = 33" "code (CHR 0x22) = 34"
  "code (CHR ''#'') = 35" "code (CHR ''$'') = 36" "code (CHR ''%'') = 37"
  "code (CHR ''&'') = 38" "code (CHR 0x27) = 39" "code (CHR ''('') = 40"
  "code (CHR '')'') = 41" "code (CHR ''*'') = 42" "code (CHR ''+'') = 43"
  "code (CHR '','') = 44" "code (CHR ''-'') = 45" "code (CHR ''.'') = 46"
  "code (CHR ''/'') = 47" "code (CHR ''0'') = 48" "code (CHR ''1'') = 49"
  "code (CHR ''2'') = 50" "code (CHR ''3'') = 51" "code (CHR ''4'') = 52"
  "code (CHR ''5'') = 53" "code (CHR ''6'') = 54" "code (CHR ''7'') = 55"
  "code (CHR ''8'') = 56" "code (CHR ''9'') = 57" "code (CHR '':'') = 58"
  "code (CHR '';'') = 59" "code (CHR ''<'') = 60" "code (CHR ''='') = 61"
  "code (CHR ''>'') = 62" "code (CHR ''?'') = 63" "code (CHR ''@'') = 64"
  "code (CHR ''A'') = 65" "code (CHR ''B'') = 66" "code (CHR ''C'') = 67"
  "code (CHR ''D'') = 68" "code (CHR ''E'') = 69" "code (CHR ''F'') = 70"
  "code (CHR ''G'') = 71" "code (CHR ''H'') = 72" "code (CHR ''I'') = 73"
  "code (CHR ''J'') = 74" "code (CHR ''K'') = 75" "code (CHR ''L'') = 76"
  "code (CHR ''M'') = 77" "code (CHR ''N'') = 78" "code (CHR ''O'') = 79"
  "code (CHR ''P'') = 80" "code (CHR ''Q'') = 81" "code (CHR ''R'') = 82"
  "code (CHR ''S'') = 83" "code (CHR ''T'') = 84" "code (CHR ''U'') = 85"
  "code (CHR ''V'') = 86" "code (CHR ''W'') = 87" "code (CHR ''X'') = 88"
  "code (CHR ''Y'') = 89" "code (CHR ''Z'') = 90" "code (CHR ''['') = 91"
  "code (CHR 0x5C) = 92" "code (CHR '']'') = 93" "code (CHR ''^'') = 94"
  "code (CHR ''_'') = 95" "code (CHR 0x60) = 96" "code (CHR ''a'') = 97"
  "code (CHR ''b'') = 98" "code (CHR ''c'') = 99" "code (CHR ''d'') = 100"
  "code (CHR ''e'') = 101" "code (CHR ''f'') = 102" "code (CHR ''g'') = 103"
  "code (CHR ''h'') = 104" "code (CHR ''i'') = 105" "code (CHR ''j'') = 106"
  "code (CHR ''k'') = 107" "code (CHR ''l'') = 108" "code (CHR ''m'') = 109"
  "code (CHR ''n'') = 110" "code (CHR ''o'') = 111" "code (CHR ''p'') = 112"
  "code (CHR ''q'') = 113" "code (CHR ''r'') = 114" "code (CHR ''s'') = 115"
  "code (CHR ''t'') = 116" "code (CHR ''u'') = 117" "code (CHR ''v'') = 118"
  "code (CHR ''w'') = 119" "code (CHR ''x'') = 120" "code (CHR ''y'') = 121"
  "code (CHR ''z'') = 122" "code (CHR ''{'') = 123" "code (CHR ''|'') = 124"
  "code (CHR ''}'') = 125" "code (CHR ''~'') = 126" "code (CHR 0xC9) = 201"
  "code (CHR 0xE9) = 233"
  by (simp_all add: code_def)

lemma lower_char_simps:
  "lower_char (CHR '' '') = CHR '' ''" "lower_char (CHR ''!'') = CHR ''!''"
  "lower_char (CHR 0x22) = CHR 0x22" "lower_char (CHR ''#'') = CHR ''#''"
  "lower_char (CHR ''$'') = CHR ''$''" "lower_char (CHR ''%'') = CHR ''%''"
  "lower_char (CHR ''&'') = CHR ''&''" "lower_char (CHR 0x27) = CHR 0x27"
  "lower_char (CHR ''('') = CHR ''(''" "lower_char (CHR '')'') = CHR '')''"
  "lower_char (CHR ''*'') = CHR ''*''" "lower_char (CHR ''+'') = CHR ''+''"
  "lower_char (CHR '','') = CHR '',''" "lower_char (CHR ''-'') = CHR ''-''"
  "lower_char (CHR ''.'') = CHR ''.''" "lower_char (CHR ''/'') = CHR ''/''"
  "lower_char (CHR ''0'') = CHR ''0''" "lower_char (CHR ''1'') = CHR ''1''"
  "lower_char (CHR ''2'') = CHR ''2''" "lower_char (CHR ''3'') = CHR ''3''"
  "lower_char (CHR ''4'') = CHR ''4''" "lower_char (CHR ''5'') = CHR ''5''"
  "lower_char (CHR ''6'') = CHR ''6''" "lower_char (CHR ''7'') = CHR ''7''"
  "lower_char (CHR ''8'') = CHR ''8''" "lower_char (CHR ''9'') = CHR ''9''"
  "lower_char (CHR '':'') = CHR '':''" "lower_char (CHR '';'') = CHR '';''"
  "lower_char (CHR ''<'') = CHR ''<''" "lower_char (CHR ''='') = CHR ''=''"
  "lower_char (CHR ''>'') = CHR ''>''" "lower_char (CHR ''?'') = CHR ''?''"
  "lower_char (CHR ''@'') = CHR ''@''" "lower_char (CHR ''A'') = CHR ''a''"
  "lower_char (CHR ''B'') = CHR ''b''" "lower_char (CHR ''C'') = CHR ''c''"
  "lower_char (CHR ''D'') = CHR ''d''" "lower_char (CHR ''E'') = CHR ''e''"
  "lower_char (CHR ''F'') = CHR ''f''" "lower_char (CHR ''G'') = CHR ''g''"
  "lower_char (CHR ''H'') = CHR ''h''" "lower_char (CHR ''I'') = CHR ''i''"
  "lower_char (CHR ''J'') = CHR ''j''" "lower_char (CHR ''K'') = CHR ''k''"
  "lower_char (CHR ''L'') = CHR ''l''" "lower_char (CHR ''M'') = CHR ''m''"
  "lower_char (CHR ''N'') = CHR ''n''" "lower_char (CHR ''O'') = CHR ''o''"
  "lower_char (CHR ''P'') = CHR ''p''" "lower_char (CHR ''Q'') = CHR ''q''"
  "lower_char (CHR ''R'') = CHR ''r''" "lower_char (CHR ''S'') = CHR ''s''"
  "lower_char (CHR ''T'') = CHR ''t''" "lower_char (CHR ''U'') = CHR ''u''"
  "lower_char (CHR ''V'') = CHR ''v''" "lower_char (CHR ''W'') = CHR ''w''"
  "lower_char (CHR ''X'') = CHR ''x''" "lower_char (CHR ''Y'') = CHR ''y''"
  "lower_char (CHR ''Z'') = CHR ''z''" "lower_char (CHR ''['') = CHR ''[''"
  "lower_char (CHR 0x5C) = CHR 0x5C" "lower_char (CHR '']'') = CHR '']''"
  "lower_char (CHR ''^'') = CHR ''^''" "lower_char (CHR ''_'') = CHR ''_''"
  "lower_char (CHR 0x60) = CHR 0x60" "lower_char (CHR ''a'') = CHR ''a''"
  "lower_char (CHR ''b'') = CHR ''b''" "lower_char (CHR ''c'') = CHR ''c''"
  "lower_char (CHR ''d'') = CHR ''d''" "lower_char (CHR ''e'') = CHR ''e''"
  "lower_char (CHR ''f'') = CHR ''f''" "lower_char (CHR ''g'') = CHR ''g''"
  "lower_char (CHR ''h'') = CHR ''h''" "lower_char (CHR ''i'') = CHR ''i''"
  "lower_char (CHR ''j'') = CHR ''j''" "lower_char (CHR ''k'') = CHR ''k''"
  "lower_char (CHR ''l'') = CHR ''l''" "lower_char (CHR ''m'') = CHR ''m''"
  "lower_char (CHR ''n'') = CHR ''n''" "lower_char (CHR ''o'') = CHR ''o''"
  "lower_char (CHR ''p'') = CHR ''p''" "lower_char (CHR ''q'') = CHR ''q''"
  "lower_char (CHR ''r'') = CHR ''r''" "lower_char (CHR ''s'') = CHR ''s''"
  "lower_char (CHR ''t'') = CHR ''t''" "lower_char (CHR ''u'') = CHR ''u''"
  "lower_char (CHR ''v'') = CHR ''v''" "lower_char (CHR ''w'') = CHR ''w''"
  "lower_char (CHR ''x'') = CHR ''x''" "lower_char (CHR ''y'') = CHR ''y''"
  "lower_char (CHR ''z'') = CHR ''z''" "lower_char (CHR ''{'') = CHR ''{''"
  "lower_char (CHR ''|'') = CHR ''|''" "lower_char (CHR ''}'') = CHR ''}''"
  "lower_char (CHR ''~'') = CHR ''~''" "lower_char (CHR 0xC9) = CHR 0xE9"
  "lower_char (CHR 0xE9) = CHR 0xE9"
  by (simp_all add: lower_char_def is_upper_def in_range_def code_def char_of_eq_iff)

lemma upper_char_simps:
  "upper_char (CHR '' '') = CHR '' ''" "upper_char (CHR ''!'') = CHR ''!''"
  "upper_char (CHR 0x22) = CHR 0x22" "upper_char (CHR ''#'') = CHR ''#''"
  "upper_char (CHR ''$'') = CHR ''$''" "upper_char (CHR ''%'') = CHR ''%''"
  "upper_char (CHR ''&'') = CHR ''&''" "upper_char (CHR 0x27) = CHR 0x27"
  "upper_char (CHR ''('') = CHR ''(''" "upper_char (CHR '')'') = CHR '')''"
  "upper_char (CHR ''*'') = CHR ''*''" "upper_char (CHR ''+'') = CHR ''+''"
  "upper_char (CHR '','') = CHR '',''" "upper_char (CHR ''-'') = CHR ''-''"
  "upper_char (CHR ''.'') = CHR ''.''" "upper_char (CHR ''/'') = CHR ''/''"
  "upper_char (CHR ''0'') = CHR ''0''" "upper_char (CHR ''1'') = CHR ''1''"
  "upper_char (CHR ''2'') = CHR ''2''" "upper_char (CHR ''3'') = CHR ''3''"
  "upper_char (CHR ''4'') = CHR ''4''" "upper_char (CHR ''5'') = CHR ''5''"
  "upper_char (CHR ''6'') = CHR ''6''" "upper_char (CHR ''7'') = CHR ''7''"
  "upper_char (CHR ''8'') = CHR ''8''" "upper_char (CHR ''9'') = CHR ''9''"
  "upper_char (CHR '':'') = CHR '':''" "upper_char (CHR '';'') = CHR '';''"
  "upper_char (CHR ''<'') = CHR ''<''" "upper_char (CHR ''='') = CHR ''=''"
  "upper_char (CHR ''>'') = CHR ''>''" "upper_char (CHR ''?'') = CHR ''?''"
  "upper_char (CHR ''@'') = CHR ''@''" "upper_char (CHR ''A'') = CHR ''A''"
  "upper_char (CHR ''B'') = CHR ''B''" "upper_char (CHR ''C'') = CHR ''C''"
  "upper_char (CHR ''D'') = CHR ''D''" "upper_char (CHR ''E'') = CHR ''E''"
  "upper_char (CHR ''F'') = CHR ''F''" "upper_char (CHR ''G'') = CHR ''G''"
  "upper_char (CHR ''H'') = CHR ''H''" "upper_char (CHR ''I'') = CHR ''I''"
  "upper_char (CHR ''J'') = CHR ''J''" "upper_char (CHR ''K'') = CHR ''K''"
  "upper_char (CHR ''L'') = CHR ''L''" "upper_char (CHR ''M'') = CHR ''M''"
  "upper_char (CHR ''N'') = CHR ''N''" "upper_char (CHR ''O'') = CHR ''O''"
  "upper_char (CHR ''P'') = CHR ''P''" "upper_char (CHR ''Q'') = CHR ''Q''"
  "upper_char (CHR ''R'') = CHR ''R''" "upper_char (CHR ''S'') = CHR ''S''"
  "upper_char (CHR ''T'') = CHR ''T''" "upper_char (CHR ''U'') = CHR ''U''"
  "upper_char (CHR ''V'') = CHR ''V''" "upper_char (CHR ''W'') = CHR ''W''"
  "upper_char (CHR ''X'') = CHR ''X''" "upper_char (CHR ''Y'') = CHR ''Y''"
  "upper_char (CHR ''Z'') = CHR ''Z''" "upper_char (CHR ''['') = CHR ''[''"
  "upper_char (CHR 0x5C) = CHR 0x5C" "upper_char (CHR '']'') = CHR '']''"
  "upper_char (CHR ''^'') = CHR ''^''" "upper_char (CHR ''_'') = CHR ''_''"
  "upper_char (CHR 0x60) = CHR 0x60" "upper_char (CHR ''a'') = CHR ''A''"
  "upper_char (CHR ''b'') = CHR ''B''" "upper_char (CHR ''c'') = CHR ''C''"
  "upper_char (CHR ''d'') = CHR ''D''" "upper_char (CHR ''e'') = CHR ''E''"
  "upper_char (CHR ''f'') = CHR ''F''" "upper_char (CHR ''g'') = CHR ''G''"
  "upper_char (CHR ''h'') = CHR ''H''" "upper_char (CHR ''i'') = CHR ''I''"
  "upper_char (CHR ''j'') = CHR ''J''" "upper_char (CHR ''k'') = CHR ''K''"
  "upper_char (CHR ''l'') = CHR ''L''" "upper_char (CHR ''m'') = CHR ''M''"
  "upper_char (CHR ''n'') = CHR ''N''" "upper_char (CHR ''o'') = CHR ''O''"
  "upper_char (CHR ''p'') = CHR ''P''" "upper_char (CHR ''q'') = CHR ''Q''"
  "upper_char (CHR ''r'') = CHR ''R''" "upper_char (CHR ''s'') = CHR ''S''"
  "upper_char (CHR ''t'') = CHR ''T''" "upper_char (CHR ''u'') = CHR ''U''"
  "upper_char (CHR ''v'') = CHR ''V''" "upper_char (CHR ''w'') = CHR ''W''"
  "upper_char (CHR ''x'') = CHR ''X''" "upper_char (CHR ''y'') = CHR ''Y''"
  "upper_char (CHR ''z'') = CHR ''Z''" "upper_char (CHR ''{'') = CHR ''{''"
  "upper_char (CHR ''|'') = CHR ''|''" "upper_char (CHR ''}'') = CHR ''}''"
  "upper_char (CHR ''~'') = CHR ''~''" "upper_char (CHR 0xC9) = CHR 0xC9"
  "upper_char (CHR 0xE9) = CHR 0xC9"
  by (simp_all add: upper_char_def has_upper_def in_range_def code_def char_of_eq_iff)

lemma sql_lower_char_simps:
  "sql_lower_char (CHR '' '') = CHR '' ''" "sql_lower_char (CHR ''!'') = CHR ''!''"
  "sql_lower_char (CHR 0x22) = CHR 0x22" "sql_lower_char (CHR ''#'') = CHR ''#''"
  "sql_lower_char (CHR ''$'') = CHR ''$''" "sql_lower_char (CHR ''%'') = CHR ''%''"
  "sql_lower_char (CHR ''&'') = CHR ''&''" "sql_lower_char (CHR 0x27) = CHR 0x27"
  "sql_lower_char (CHR ''('') = CHR ''(''" "sql_lower_char (CHR '')'') = CHR '')''"
  "sql_lower_char (CHR ''*'') = CHR ''*''" "sql_lower_char (CHR ''+'') = CHR ''+''"
  "sql_lower_char (CHR '','') = CHR '',''" "sql_lower_char (CHR ''-'') = CHR ''-''"
  "sql_lower_char (CHR ''.'') = CHR ''.''" "sql_lower_char (CHR ''/'') = CHR ''/''"
  "sql_lower_char (CHR ''0'') = CHR ''0''" "sql_lower_char (CHR ''1'') = CHR ''1''"
  "sql_lower_char (CHR ''2'') = CHR ''2''" "sql_lower_char (CHR ''3'') = CHR ''3''"
  "sql_lower_char (CHR ''4'') = CHR ''4''" "sql_lower_char (CHR ''5'') = CHR ''5''"
  "sql_lower_char (CHR ''6'') = CHR ''6''" "sql_lower_char (CHR ''7'') = CHR ''7''"
  "sql_lower_char (CHR ''8'') = CHR ''8''" "sql_lower_char (CHR ''9'') = CHR ''9''"
  "sql_lower_char (CHR '':'') = CHR '':''" "sql_lower_char (CHR '';'') = CHR '';''"
  "sql_lower_char (CHR ''<'') = CHR ''<''" "sql_lower_char (CHR ''='') = CHR ''=''"
  "sql_lower_char (CHR ''>'') = CHR ''>''" "sql_lower_char (CHR ''?'') = CHR ''?''"
  "sql_lower_char (CHR ''@'') = CHR ''@''" "sql_lower_char (CHR ''A'') = CHR ''a''"
  "sql_lower_char (CHR ''B'') = CHR ''b''" "sql_lower_char (CHR ''C'') = CHR ''c''"
  "sql_lower_char (CHR ''D'') = CHR ''d''" "sql_lower_char (CHR ''E'') = CHR ''e''"
  "sql_lower_char (CHR ''F'') = CHR ''f''" "sql_lower_char (CHR ''G'') = CHR ''g''"
  "sql_lower_char (CHR ''H'') = CHR ''h''" "sql_lower_char (CHR ''I'') = CHR ''i''"
  "sql_lower_char (CHR ''J'') = CHR ''j''" "sql_lower_char (CHR ''K'') = CHR ''k''"
  "sql_lower_char (CHR ''L'') = CHR ''l''" "sql_lower_char (CHR ''M'') = CHR ''m''"
  "sql_lower_char (CHR ''N'') = CHR ''n''" "sql_lower_char (CHR ''O'') = CHR ''o''"
  "sql_lower_char (CHR ''P'') = CHR ''p''" "sql_lower_char (CHR ''Q'') = CHR ''q''"
  "sql_lower_char (CHR ''R'') = CHR ''r''" "sql_lower_char (CHR ''S'') = CHR ''s''"
  "sql_lower_char (CHR ''T'') = CHR ''t''" "sql_lower_char (CHR ''U'') = CHR ''u''"
  "sql_lower_char (CHR ''V'') = CHR ''v''" "sql_lower_char (CHR ''W'') = CHR ''w''"
  "sql_lower_char (CHR ''X'') = CHR ''x''" "sql_lower_char (CHR ''Y'') = CHR ''y''"
  "sql_lower_char (CHR ''Z'') = CHR ''z''" "sql_lower_char (CHR ''['') = CHR ''[''"
  "sql_lower_char (CHR 0x5C) = CHR 0x5C" "sql_lower_char (CHR '']'') = CHR '']''"
  "sql_lower_char (CHR ''^'') = CHR ''^''" "sql_lower_char (CHR ''_'') = CHR ''_''"
  "sql_lower_char (CHR 0x60) = CHR 0x60" "sql_lower_char (CHR ''a'') = CHR ''a''"
  "sql_lower_char (CHR ''b'') = CHR ''b''" "sql_lower_char (CHR ''c'') = CHR ''c''"
  "sql_lower_char (CHR ''d'') = CHR ''d''" "sql_lower_char (CHR ''e'') = CHR ''e''"
  "sql_lower_char (CHR ''f'') = CHR ''f''" "sql_lower_char (CHR ''g'') = CHR ''g''"
  "sql_lower_char (CHR ''h'') = CHR ''h''" "sql_lower_char (CHR ''i'') = CHR ''i''"
  "sql_lower_char (CHR ''j'') = CHR ''j''" "sql_lower_char (CHR ''k'') = CHR ''k''"
  "sql_lower_char (CHR ''l'') = CHR ''l''" "sql_lower_char (CHR ''m'') = CHR ''m''"
  "sql_lower_char (CHR ''n'') = CHR ''n''" "sql_lower_char (CHR ''o'') = CHR ''o''"
  "sql_lower_char (CHR ''p'') = CHR ''p''" "sql_lower_char (CHR ''q'') = CHR ''q''"
  "sql_lower_char (CHR ''r'') = CHR ''r''" "sql_lower_char (CHR ''s'') = CHR ''s''"
  "sql_lower_char (CHR ''t'') = CHR ''t''" "sql_lower_char (CHR ''u'') = CHR ''u''"
  "sql_lower_char (CHR ''v'') = CHR ''v''" "sql_lower_char (CHR ''w'') = CHR ''w''"
  "sql_lower_char (CHR ''x'') = CHR ''x''" "sql_lower_char (CHR ''y'') = CHR ''y''"
  "sql_lower_char (CHR ''z'') = CHR ''z''" "sql_lower_char (CHR ''{'') = CHR ''{''"
  "sql_lower_char (CHR ''|'') = CHR ''|''" "sql_lower_char (CHR ''}'') = CHR ''}''"
  "sql_lower_char (CHR ''~'') = CHR ''~''" "sql_lower_char (CHR 0xC9) = CHR 0xC9"
  "sql_lower_char (CHR 0xE9) = CHR 0xE9"
  by (simp_all add: sql_lower_char_def in_range_def code_def char_of_eq_iff)

lemma is_word_simps:
  "\<not> is_word (CHR '' '')" "\<not> is_word (CHR ''!'')" "\<not> is_word (CHR 0x22)" "\<not> is_word (CHR ''#'')"
  "\<not> is_word (CHR ''$'')" "\<not> is_word (CHR ''%'')" "\<not> is_word (CHR ''&'')" "\<not> is_word (CHR 0x27)"
  "\<not> is_word (CHR ''('')" "\<not> is_word (CHR '')'')" "\<not> is_word (CHR ''*'')" "\<not> is_word (CHR ''+'')"
  "\<not> is_word (CHR '','')" "\<not> is_word (CHR ''-'')" "\<not> is_word (CHR ''.'')" "\<not> is_word (CHR ''/'')"
  "is_word (CHR ''0'')" "is_word (CHR ''1'')" "is_word (CHR ''2'')" "is_word (CHR ''3'')"
  "is_word (CHR ''4'')" "is_word (CHR ''5'')" "is_word (CHR ''6'')" "is_word (CHR ''7'')"
  "is_word (CHR ''8'')" "is_word (CHR ''9'')" "\<not> is_word (CHR '':'')" "\<not> is_word (CHR '';'')"
  "\<not> is_word (CHR ''<'')" "\<not> is_word (CHR ''='')" "\<not> is_word (CHR ''>'')" "\<not> is_word (CHR ''?'')"
  "\<not> is_word (CHR ''@'')" "is_word (CHR ''A'')" "is_word (CHR ''B'')" "is_word (CHR ''C'')"
  "is_word (CHR ''D'')" "is_word (CHR ''E'')" "is_word (CHR ''F'')" "is_word (CHR ''G'')"
  "is_word (CHR ''H'')" "is_word (CHR ''I'')" "is_word (CHR ''J'')" "is_word (CHR ''K'')"
  "is_word (CHR ''L'')" "is_word (CHR ''M'')" "is_word (CHR ''N'')" "is_word (CHR ''O'')"
  "is_word (CHR ''P'')" "is_word (CHR ''Q'')" "is_word (CHR ''R'')" "is_word (CHR ''S'')"
  "is_word (CHR ''T'')" "is_word (CHR ''U'')" "is_word (CHR ''V'')" "is_word (CHR ''W'')"
  "is_word (CHR ''X'')" "is_word (CHR ''Y'')" "is_word (CHR ''Z'')" "\<not> is_word (CHR ''['')"
  "\<not> is_word (CHR 0x5C)" "\<not> is_word (CHR '']'')" "\<not> is_word (CHR ''^'')" "is_word (CHR ''_'')"
  "\<not> is_word (CHR 0x60)" "is_word (CHR ''a'')" "is_word (CHR ''b'')" "is_word (CHR ''c'')"
  "is_word (CHR ''d'')" "is_word (CHR ''e'')" "is_word (CHR ''f'')" "is_word (CHR ''g'')"
  "is_word (CHR ''h'')" "is_word (CHR ''i'')" "is_word (CHR ''j'')" "is_word (CHR ''k'')"
  "is_word (CHR ''l'')" "is_word (CHR ''m'')" "is_word (CHR ''n'')" "is_word (CHR ''o'')"
  "is_word (CHR ''p'')" "is_word (CHR ''q'')" "is_word (CHR ''r'')" "is_word (CHR ''s'')"
  "is_word (CHR ''t'')" "is_word (CHR ''u'')" "is_word (CHR ''v'')" "is_word (CHR ''w'')"
  "is_word (CHR ''x'')" "is_word (CHR ''y'')" "is_word (CHR ''z'')" "\<not> is_word (CHR ''{'')"
  "\<not> is_word (CHR ''|'')" "\<not> is_word (CHR ''}'')" "\<not> is_word (CHR ''~'')" "is_word (CHR 0xC9)"
  "is_word (CHR 0xE9)"
  by (simp_all add: is_word_def in_range_def code_def)

lemma is_space_simps:
  "is_space (CHR '' '')" "\<not> is_space (CHR ''!'')" "\<not> is_space (CHR 0x22)" "\<not> is_space (CHR ''#'')"
  "\<not> is_space (CHR ''$'')" "\<not> is_space (CHR ''%'')" "\<not> is_space (CHR ''&'')" "\<not> is_space (CHR 0x27)"
  "\<not> is_space (CHR ''('')" "\<not> is_space (CHR '')'')" "\<not> is_space (CHR ''*'')" "\<not> is_space (CHR ''+'')"
  "\<not> is_space (CHR '','')" "\<not> is_space (CHR ''-'')" "\<not> is_space (CHR ''.'')" "\<not> is_space (CHR ''/'')"
  "\<not> is_space (CHR ''0'')" "\<not> is_space (CHR ''1'')" "\<not> is_space (CHR ''2'')" "\<not> is_space (CHR ''3'')"
  "\<not> is_space (CHR ''4'')" "\<not> is_space (CHR ''5'')" "\<not> is_space (CHR ''6'')" "\<not> is_space (CHR ''7'')"
  "\<not> is_space (CHR ''8'')" "\<not> is_space (CHR ''9'')" "\<not> is_space (CHR '':'')" "\<not> is_space (CHR '';'')"
  "\<not> is_space (CHR ''<'')" "\<not> is_space (CHR ''='')" "\<not> is_space (CHR ''>'')" "\<not> is_space (CHR ''?'')"
  "\<not> is_space (CHR ''@'')" "\<not> is_space (CHR ''A'')" "\<not> is_space (CHR ''B'')" "\<not> is_space (CHR ''C'')"
  "\<not> is_space (CHR ''D'')" "\<not> is_space (CHR ''E'')" "\<not> is_space (CHR ''F'')" "\<not> is_space (CHR ''G'')"
  "\<not> is_space (CHR ''H'')" "\<not> is_space (CHR ''I'')" "\<not> is_space (CHR ''J'')" "\<not> is_space (CHR ''K'')"
  "\<not> is_space (CHR ''L'')" "\<not> is_space (CHR ''M'')" "\<not> is_space (CHR ''N'')" "\<not> is_space (CHR ''O'')"
  "\<not> is_space (CHR ''P'')" "\<not> is_space (CHR ''Q'')" "\<not> is_space (CHR ''R'')" "\<not> is_space (CHR ''S'')"
  "\<not> is_space (CHR ''T'')" "\<not> is_space (CHR ''U'')" "\<not> is_space (CHR ''V'')" "\<not> is_space (CHR ''W'')"
  "\<not> is_space (CHR ''X'')" "\<not> is_space (CHR ''Y'')" "\<not> is_space (CHR ''Z'')" "\<not> is_space (CHR ''['')"
  "\<not> is_space (CHR 0x5C)" "\<not> is_space (CHR '']'')" "\<not> is_space (CHR ''^'')" "\<not> is_space (CHR ''_'')"
  "\<not> is_space (CHR 0x60)" "\<not> is_space (CHR ''a'')" "\<not> is_space (CHR ''b'')" "\<not> is_space (CHR ''c'')"
  "\<not> is_space (CHR ''d'')" "\<not> is_space (CHR ''e'')" "\<not> is_space (CHR ''f'')" "\<not> is_space (CHR ''g'')"
  "\<not> is_space (CHR ''h'')" "\<not> is_space (CHR ''i'')" "\<not> is_space (CHR ''j'')" "\<not> is_space (CHR ''k'')"
  "\<not> is_space (CHR ''l'')" "\<not> is_space (CHR ''m'')" "\<not> is_space (CHR ''n'')" "\<not> is_space (CHR ''o'')"
  "\<not> is_space (CHR ''p'')" "\<not> is_space (CHR ''q'')" "\<not> is_space (CHR ''r'')" "\<not> is_space (CHR ''s'')"
  "\<not> is_space (CHR ''t'')" "\<not> is_space (CHR ''u'')" "\<not> is_space (CHR ''v'')" "\<not> is_space (CHR ''w'')"
  "\<not> is_space (CHR ''x'')" "\<not> is_space (CHR ''y'')" "\<not> is_space (CHR ''z'')" "\<not> is_space (CHR ''{'')"
  "\<not> is_space (CHR ''|'')" "\<not> is_space (CHR ''}'')" "\<not> is_space (CHR ''~'')" "\<not> is_space (CHR 0xC9)"
  "\<not> is_space (CHR 0xE9)"
  by (simp_all add: is_space_def in_range_def code_def)

lemmas text_eval = code_simps lower_char_simps upper_char_simps is_word_simps in_range_def
  lower_def is_digit_def

lemmas regex_eval = rest_def caps_def same_char_def in_ranges_def in_class_def word_before_def
  word_after_def group_text_def result_of_def findall_def search_def seqs_def lits_def

lemmas keyword_eval = text_eval regex_eval tier_count_def keyword_count_def tier_def
  THREAT_KEYWORDS_def keyword_pattern_def

section \<open>The severity classifier\<close>

lemma score_keywords_sum: "score_keywords kws text n = n + tier_count kws text"
  by (induction kws arbitrary: n) (simp_all add: tier_count_def keyword_count_def)

lemma level_scores_table:
  "level_scores [(''critical'', cs), (''high'', hs), (''medium'', ms), (''low'', ls)] text Map.empty =
     [''critical'' \<mapsto> tier_count cs text, ''high'' \<mapsto> tier_count hs text,
      ''medium'' \<mapsto> tier_count ms text, ''low'' \<mapsto> tier_count ls text]"
  by (simp add: score_keywords_sum)

lemma analyze_with_table:
  "analyze_with [(''critical'', cs), (''high'', hs), (''medium'', ms), (''low'', ls)] title content =
     (let text = lower (title @ '' '' @ content);
          c = tier_count cs text; h = tier_count hs text; m = tier_count ms text
      in Inr (if 0 < c then (CRITICAL, min (of_nat c / 3) 1)
              else if 0 < h then (HIGH, min (of_nat h / 2) 1)
              else if 0 < m then (MEDIUM, min (of_nat m / (3 / 2)) 1)
              else (LOW, 3 / 10)))"
  unfolding analyze_with_def Let_def level_scores_table
  by (simp add: get_score_def)

lemma tier_count_pos: "(0 < tier_count kws text) = (\<exists>kw\<in>set kws. 0 < keyword_count text kw)"
  by (induction kws) (auto simp: tier_count_def)

lemma analyze_threat_level_tiers:
  "analyze_threat_level title content =
     (let text = lower (title @ '' '' @ content);
          c = tier_count (tier ''critical'') text;
          h = tier_count (tier ''high'') text;
          m = tier_count (tier ''medium'') text
      in Inr (if 0 < c then (CRITICAL, min (of_nat c / 3) 1)
              else if 0 < h then (HIGH, min (of_nat h / 2) 1)
              else if 0 < m then (MEDIUM, min (of_nat m / (3 / 2)) 1)
              else (LOW, 3 / 10)))"
  unfolding analyze_threat_level_def THREAT_KEYWORDS_def analyze_with_table
  by (simp add: tier_def THREAT_KEYWORDS_def)

subsection \<open>The matcher's count is the specification's count\<close>

lemma lits_simps: "lits [] = Eps" "lits (c # k) = Seq (Lit c) (lits k)"
  by (simp_all add: lits_def seqs_def)

lemma matches_lits:
  "matches False (lits k) (p, xs, g) =
     (if prefix k xs then [(if k = [] then p else Some (last k), drop (length k) xs, g)] else [])"
proof (induction k arbitrary: p xs)
  case Nil
  show ?case by (simp add: lits_simps)
next
  case (Cons c k)
  show ?case
  proof (cases xs)
    case Nil
    then show ?thesis by (simp add: lits_simps)
  next
    case (Cons x xs')
    then show ?thesis using Cons.IH [of "Some x" xs']
      by (cases k) (auto simp: lits_simps same_char_def)
  qed
qed

lemma matches_keyword:
  assumes "k \<noteq> []"
  shows "matches False (Seq WordB (Seq (lits k) WordB)) (p, xs, g) =
     (if word_before p \<noteq> word_after xs \<and> prefix k xs
         \<and> is_word (last k) \<noteq> word_after (drop (length k) xs)
      then [(Some (last k), drop (length k) xs, g)] else [])"
  using assms by (auto simp: matches_lits word_before_def)

lemma boundary_last_char: "boundary pre xs = (word_before (last_char pre) \<noteq> word_after xs)"
  by (cases xs) (auto simp: boundary_def word_before_def word_after_def last_char_def)

lemma occurs_at_here:
  assumes "k \<noteq> []"
  shows "occurs_at k (pre @ xs) (length pre) =
     (word_before (last_char pre) \<noteq> word_after xs \<and> prefix k xs
      \<and> is_word (last k) \<noteq> word_after (drop (length k) xs))"
proof (cases "prefix k xs")
  case False
  then show ?thesis by (simp add: occurs_at_def)
next
  case True
  then obtain r where xs: "xs = k @ r" by (auto simp: prefix_def)
  have "boundary (pre @ k) r = (is_word (last k) \<noteq> word_after r)"
    using assms by (simp add: boundary_last_char last_char_def word_before_def)
  then show ?thesis using True
    by (simp add: occurs_at_def xs boundary_last_char)
qed

lemma no_overlap:
  assumes "prefix k zs" "0 < j" "j < length k" "prefix k (drop j zs)"
  shows "self_overlap k"
proof -
  from assms(1) obtain r where zs: "zs = k @ r" by (auto simp: prefix_def)
  have d: "drop j zs = drop j k @ r" using assms(3) by (simp add: zs)
  have "prefix (drop j k) (drop j zs)" by (simp add: d)
  with assms(4) have "prefix (drop j k) k \<or> prefix k (drop j k)"
    using prefix_same_cases by blast
  moreover have "\<not> prefix k (drop j k)"
    using assms(2,3) by (auto dest: prefix_length_le)
  ultimately have "prefix (drop j k) k" by blast
  then show ?thesis unfolding self_overlap_def list_ex_iff using assms(2,3) by auto
qed

lemma findall_keyword_count:
  assumes k: "k \<noteq> []" and nov: "\<not> self_overlap k"
  shows "\<forall>j<skip. \<not> prefix k (drop j xs) \<Longrightarrow>
     length (findall_from False (Seq WordB (Seq (lits k) WordB)) skip (last_char pre) xs) =
     length (filter (occurs_at k (pre @ xs)) [length pre..<Suc (length pre + length xs)])"
proof (induction xs arbitrary: skip pre)
  case Nil
  have "\<not> occurs_at k pre (length pre)" using k by (simp add: occurs_at_def)
  then show ?case using k by (simp add: matches_keyword [OF k] del: matches.simps)
next
  case (Cons x xs)
  let ?r = "Seq WordB (Seq (lits k) WordB)"
  define R where
    "R = length (filter (occurs_at k (pre @ x # xs))
                  [length (pre @ [x])..<Suc (length (pre @ [x]) + length xs)])"
  have lc: "last_char (pre @ [x]) = Some x" by (simp add: last_char_def)
  have upt: "[length pre..<Suc (length pre + length (x # xs))] =
        length pre # [length (pre @ [x])..<Suc (length (pre @ [x]) + length xs)]"
    using upt_conv_Cons [of "length pre" "Suc (length pre + length (x # xs))"]
    by (simp del: upt_Suc)
  have rhs: "length (filter (occurs_at k (pre @ x # xs)) [length pre..<Suc (length pre + length (x # xs))])
      = (if occurs_at k (pre @ x # xs) (length pre) then Suc R else R)"
    unfolding upt R_def by simp
  have here: "occurs_at k (pre @ x # xs) (length pre) =
     (word_before (last_char pre) \<noteq> word_after (x # xs) \<and> prefix k (x # xs)
      \<and> is_word (last k) \<noteq> word_after (drop (length k) (x # xs)))"
    by (rule occurs_at_here [OF k])
  have IH: "length (findall_from False ?r n (Some x) xs) = R"
    if "\<forall>j<n. \<not> prefix k (drop j xs)" for n
    using Cons.IH [of n "pre @ [x]"] that unfolding R_def by (simp add: lc)
  show ?case
  proof (cases "0 < skip")
    case True
    then have "\<not> prefix k (x # xs)" using Cons.prems by (auto dest: spec [of _ 0])
    then have no: "\<not> occurs_at k (pre @ x # xs) (length pre)" by (simp add: here)
    have "\<forall>j<skip - 1. \<not> prefix k (drop j xs)"
    proof (intro allI impI)
      fix j assume "j < skip - 1"
      then have "Suc j < skip" by simp
      then have "\<not> prefix k (drop (Suc j) (x # xs))" using Cons.prems by blast
      then show "\<not> prefix k (drop j xs)" by simp
    qed
    from IH [OF this] show ?thesis using True no unfolding rhs by simp
  next
    case False
    then have s0: "skip = 0" by simp
    show ?thesis
    proof (cases "occurs_at k (pre @ x # xs) (length pre)")
      case True
      then have m: "matches False ?r (last_char pre, x # xs, []) = [(Some (last k), drop (length k) (x # xs), [])]"
        by (simp add: matches_keyword [OF k] here del: matches.simps)
      have pk: "prefix k (x # xs)" using True by (simp add: here)
      then have len: "length k \<le> length (x # xs)" by (rule prefix_length_le)
      have sk: "length xs - length (rest (Some (last k), drop (length k) (x # xs), [])) = length k - 1"
        using len by (simp add: rest_def)
      have "\<forall>j<length k - 1. \<not> prefix k (drop j xs)"
      proof (intro allI impI notI)
        fix j assume j: "j < length k - 1" and p: "prefix k (drop j xs)"
        have "self_overlap k"
          by (rule no_overlap [OF pk, of "Suc j"]) (use j p in auto)
        with nov show False by simp
      qed
      from IH [OF this] have "length (findall_from False ?r (length k - 1) (Some x) xs) = R" .
      moreover have "findall_from False ?r skip (last_char pre) (x # xs) =
          result_of ?r (x # xs) (Some (last k), drop (length k) (x # xs), [])
            # findall_from False ?r (length k - 1) (Some x) xs"
        unfolding s0 findall_from.simps m by (simp add: sk)
      ultimately show ?thesis using True unfolding rhs by simp
    next
      case False
      then have m: "matches False ?r (last_char pre, x # xs, []) = []"
        by (simp add: matches_keyword [OF k] here del: matches.simps)
      have "findall_from False ?r skip (last_char pre) (x # xs) = findall_from False ?r 0 (Some x) xs"
        unfolding s0 findall_from.simps m by simp
      with IH [of 0] show ?thesis using False unfolding rhs by simp
    qed
  qed
qed

lemma keyword_count_occurrences:
  assumes "lower kw \<noteq> []" "\<not> self_overlap (lower kw)"
  shows "keyword_count text kw = occurrences (lower kw) text"
  using findall_keyword_count [OF assms, of 0 "text" "[]"]
  by (simp add: keyword_count_def keyword_pattern_def findall_def occurrences_def last_char_def)

lemma tier_count_occurrences:
  assumes "list_all (\<lambda>kw. lower kw = kw \<and> kw \<noteq> [] \<and> \<not> self_overlap kw) kws"
  shows "tier_count kws text = sum_list (map (\<lambda>kw. occurrences kw text) kws)"
  using assms by (induction kws) (simp_all add: tier_count_def keyword_count_occurrences)

lemma tiers_plain:
  "list_all (\<lambda>kw. lower kw = kw \<and> kw \<noteq> [] \<and> \<not> self_overlap kw) (tier ''critical'')"
  "list_all (\<lambda>kw. lower kw = kw \<and> kw \<noteq> [] \<and> \<not> self_overlap kw) (tier ''high'')"
  "list_all (\<lambda>kw. lower kw = kw \<and> kw \<noteq> [] \<and> \<not> self_overlap kw) (tier ''medium'')"
  by (simp_all add: tier_def THREAT_KEYWORDS_def lower_def lower_char_simps self_overlap_def)

lemma sum_list_pos: "(0 < sum_list (map f xs)) = (\<exists>x\<in>set xs. 0 < (f x :: nat))"
  by (induction xs) auto

lemma tier_occurrences_pos:
  "(0 < tier_occurrences level text) = (\<exists>kw\<in>set (tier level). 0 < occurrences kw text)"
  unfolding tier_occurrences_def by (rule sum_list_pos)

lemma tier_count_tier:
  "tier_count (tier ''critical'') text = tier_occurrences ''critical'' text"
  "tier_count (tier ''high'') text = tier_occurrences ''high'' text"
  "tier_count (tier ''medium'') text = tier_occurrences ''medium'' text"
  by (simp_all only: tier_occurrences_def tier_count_occurrences [OF tiers_plain(1)]
      tier_count_occurrences [OF tiers_plain(2)] tier_count_occurrences [OF tiers_plain(3)])

lemmas spec_eval = tier_occurrences_def occurrences_def occurs_at_def boundary_def tier_def
  THREAT_KEYWORDS_def lower_def lower_char_simps is_word_simps

text \<open>
  C1. For every title and content the classifier returns, without error, the first of the
  tiers critical, high, medium whose count is positive, with confidence
  \<open>min (count / 3) 1\<close>, \<open>min (count / 2) 1\<close> and \<open>min (count / 1.5) 1\<close> respectively, and
  \<open>(LOW, 0.3)\<close> when all three counts are zero. The count of a tier is the number of
  positions of the lower-cased text (title, one space, content) at which one of its
  keywords stands between two word boundaries. In particular, when some critical keyword
  occurs the level is critical, whatever the high and medium counts are.
\<close>

theorem analyze_threat_level_tier_order:
  "analyze_threat_level title content =
     (let text = lower (title @ '' '' @ content);
          c = tier_occurrences ''critical'' text;
          h = tier_occurrences ''high'' text;
          m = tier_occurrences ''medium'' text
      in Inr (if 0 < c then (CRITICAL, min (of_nat c / 3) 1)
              else if 0 < h then (HIGH, min (of_nat h / 2) 1)
              else if 0 < m then (MEDIUM, min (of_nat m / (3 / 2)) 1)
              else (LOW, 3 / 10)))
   \<and> ((\<exists>kw\<in>set (tier ''critical''). 0 < occurrences kw (lower (title @ '' '' @ content)))
        \<longrightarrow> (\<exists>conf. analyze_threat_level title content = Inr (CRITICAL, conf)))"
  unfolding analyze_threat_level_tiers Let_def tier_count_tier
  by (simp add: tier_occurrences_pos)

text \<open>
  The classifier on six texts: a keyword in capitals; keywords inside longer words only;
  four occurrences, which reach the cap; a high and a medium keyword together; a keyword
  that title and content form together; and a keyword followed by the letter \<open>0xE9\<close>.
\<close>

lemma tier_occurrences_examples:
  "tier_occurrences ''critical'' (lower (''RCE'' @ '' '' @ ''Router'')) = 1"
  "tier_occurrences ''critical'' (lower (''source'' @ '' '' @ ''0days'')) = 0"
  "tier_occurrences ''high'' (lower (''source'' @ '' '' @ ''0days'')) = 0"
  "tier_occurrences ''medium'' (lower (''source'' @ '' '' @ ''0days'')) = 0"
  "tier_occurrences ''critical'' (lower (''rce rce'' @ '' '' @ ''rce rce'')) = 4"
  "tier_occurrences ''critical'' (lower (''apt'' @ '' '' @ ''patch'')) = 0"
  "tier_occurrences ''high'' (lower (''apt'' @ '' '' @ ''patch'')) = 1"
  "tier_occurrences ''critical'' (lower (''data'' @ '' '' @ ''breach'')) = 1"
  "tier_occurrences ''critical'' (lower (''apt'' @ [CHR 0xE9] @ '' '' @ ''x'')) = 0"
  "tier_occurrences ''high'' (lower (''apt'' @ [CHR 0xE9] @ '' '' @ ''x'')) = 0"
  "tier_occurrences ''medium'' (lower (''apt'' @ [CHR 0xE9] @ '' '' @ ''x'')) = 0"
  by (simp_all add: spec_eval)

theorem analyze_threat_level_tier_order_witness:
  "(\<exists>kw\<in>set (tier ''critical''). 0 < occurrences kw (lower (''RCE'' @ '' '' @ ''Router'')))
   \<and> analyze_threat_level ''RCE'' ''Router'' = Inr (CRITICAL, 1 / 3)
   \<and> analyze_threat_level ''source'' ''0days'' = Inr (LOW, 3 / 10)
   \<and> analyze_threat_level ''rce rce'' ''rce rce'' = Inr (CRITICAL, 1)
   \<and> analyze_threat_level ''apt'' ''patch'' = Inr (HIGH, 1 / 2)
   \<and> analyze_threat_level ''data'' ''breach'' = Inr (CRITICAL, 1 / 3)
   \<and> analyze_threat_level (''apt'' @ [CHR 0xE9]) ''x'' = Inr (LOW, 3 / 10)"
proof -
  have "0 < tier_occurrences ''critical'' (lower (''RCE'' @ '' '' @ ''Router''))"
    unfolding tier_occurrences_examples by simp
  then have "\<exists>kw\<in>set (tier ''critical''). 0 < occurrences kw (lower (''RCE'' @ '' '' @ ''Router''))"
    by (simp only: tier_occurrences_pos)
  moreover have "analyze_threat_level ''RCE'' ''Router'' = Inr (CRITICAL, 1 / 3)"
    using analyze_threat_level_tier_order [of "''RCE''" "''Router''"]
    unfolding Let_def tier_occurrences_examples by simp
  moreover have "analyze_threat_level ''source'' ''0days'' = Inr (LOW, 3 / 10)"
    using analyze_threat_level_tier_order [of "''source''" "''0days''"]
    unfolding Let_def tier_occurrences_examples by simp
  moreover have "analyze_threat_level ''rce rce'' ''rce rce'' = Inr (CRITICAL, 1)"
    using analyze_threat_level_tier_order [of "''rce rce''" "''rce rce''"]
    unfolding Let_def tier_occurrences_examples by simp
  moreover have "analyze_threat_level ''apt'' ''patch'' = Inr (HIGH, 1 / 2)"
    using analyze_threat_level_tier_order [of "''apt''" "''patch''"]
    unfolding Let_def tier_occurrences_examples by simp
  moreover have "analyze_threat_level ''data'' ''breach'' = Inr (CRITICAL, 1 / 3)"
    using analyze_threat_level_tier_order [of "''data''" "''breach''"]
    unfolding Let_def tier_occurrences_examples by simp
  moreover have "analyze_threat_level (''apt'' @ [CHR 0xE9]) ''x'' = Inr (LOW, 3 / 10)"
    using analyze_threat_level_tier_order [of "''apt'' @ [CHR 0xE9]" "''x''"]
    unfolding Let_def append_assoc tier_occurrences_examples by simp
  ultimately show ?thesis by blast
qed

text \<open>
  C10. The keyword list of the level low has no part in the result: two analyzers whose
  tables differ in that list only classify every text alike, and a text with no critical,
  high or medium keyword is classified \<open>(LOW, 0.3)\<close>, however many low keywords it has.
\<close>

theorem low_tier_never_counts:
  "analyze_with [(''critical'', cs), (''high'', hs), (''medium'', ms), (''low'', ls)] title content
     = analyze_with [(''critical'', cs), (''high'', hs), (''medium'', ms), (''low'', ls')] title content
   \<and> (tier_count (tier ''critical'') (lower (title @ '' '' @ content)) = 0
        \<and> tier_count (tier ''high'') (lower (title @ '' '' @ content)) = 0
        \<and> tier_count (tier ''medium'') (lower (title @ '' '' @ content)) = 0
      \<longrightarrow> analyze_threat_level title content = Inr (LOW, 3 / 10))"
  unfolding analyze_with_table analyze_threat_level_tiers Let_def
  by simp

lemma counts_advisory_report:
  "tier_count (tier ''critical'') (lower (''advisory'' @ '' '' @ ''report'')) = 0"
  "tier_count (tier ''high'') (lower (''advisory'' @ '' '' @ ''report'')) = 0"
  "tier_count (tier ''medium'') (lower (''advisory'' @ '' '' @ ''report'')) = 0"
  "tier_count (tier ''low'') (lower (''advisory'' @ '' '' @ ''report'')) = 2"
  by (simp_all add: keyword_eval)

theorem low_tier_never_counts_witness:
  "tier_count (tier ''low'') (lower (''advisory'' @ '' '' @ ''report'')) = 2
   \<and> tier_count (tier ''critical'') (lower (''advisory'' @ '' '' @ ''report'')) = 0
   \<and> tier_count (tier ''high'') (lower (''advisory'' @ '' '' @ ''report'')) = 0
   \<and> tier_count (tier ''medium'') (lower (''advisory'' @ '' '' @ ''report'')) = 0
   \<and> analyze_threat_level ''advisory'' ''report'' = Inr (LOW, 3 / 10)"
  using low_tier_never_counts [of "tier ''critical''" "tier ''high''" "tier ''medium''" "tier ''low''"
      "''advisory''" "''report''" "[]"]
  by (simp only: counts_advisory_report simp_thms)

section \<open>Pagination\<close>

lemma div_step:
  assumes "0 < (b::int)" "0 \<le> r" "r < b"
  shows "(b * q + r) div b = q"
proof -
  have "(b * q + r) div b = q + r div b" using assms(1) by (simp only: div_mult_self4)
  also have "r div b = 0" using assms(2,3) by (simp add: div_pos_pos_trivial)
  finally show ?thesis by simp
qed

lemma neg_div_ceil:
  assumes "0 < (b::int)"
  shows "- (- a div b) = (a + b - 1) div b"
proof (cases "a mod b = 0")
  case True
  then obtain q where a: "a = b * q" by (auto simp: mod_eq_0_iff_dvd)
  have "(b * q + (b - 1)) div b = q" by (rule div_step) (use assms in auto)
  moreover have "a + b - 1 = b * q + (b - 1)" by (simp add: a)
  ultimately have "(a + b - 1) div b = q" by (simp only:)
  moreover have "- a div b = - q"
    unfolding a using assms by (metis less_irrefl nonzero_mult_div_cancel_left mult_minus_right)
  ultimately show ?thesis by simp
next
  case False
  define q where "q = a div b"
  define r where "r = a mod b"
  have a: "a = b * q + r" by (simp add: q_def r_def)
  have r: "0 < r" "r < b"
    using False assms by (auto simp: r_def intro: le_neq_trans pos_mod_sign pos_mod_bound)
  have "- a div b = - q - 1" using False assms unfolding q_def
    by (simp add: zdiv_zminus1_eq_if)
  moreover have "(a + b - 1) div b = q + 1"
  proof -
    have "(b * (q + 1) + (r - 1)) div b = q + 1" by (rule div_step) (use assms r in auto)
    moreover have "a + b - 1 = b * (q + 1) + (r - 1)" by (simp add: a algebra_simps)
    ultimately show ?thesis by (simp only:)
  qed
  ultimately show ?thesis by simp
qed

lemma pages_ceiling:
  assumes "0 < (b::int)"
  shows "(a + b - 1) div b = \<lceil>rat_of_int a / rat_of_int b\<rceil>"
  using neg_div_ceil [OF assms, of a] by (simp add: ceiling_divide_eq_div)

lemma length_order_by_date_desc: "length (order_by_date_desc rows) = length rows"
  by (simp add: order_by_date_desc_def)

text \<open>
  C5. For a page number and a page size of at least 1, \<open>search_articles\<close> returns a
  response: its total is the number of matching rows, its items are the slice of the
  ordered matching rows that starts at offset \<open>(page - 1) * per_page\<close> and has at most
  \<open>per_page\<close> rows, its page count is the ceiling of \<open>total / per_page\<close>, \<open>has_next\<close>
  holds exactly when \<open>page < pages\<close> and \<open>has_prev\<close> exactly when \<open>1 < page\<close>. With 45
  matching rows and 20 rows per page there are 3 pages, and page 3 has 5 items, no next
  page and a previous page.
\<close>

theorem search_articles_pagination:
  assumes "1 \<le> page" "1 \<le> per_page"
  shows "\<exists>r. search_articles table filters page per_page = Inr r
     \<and> r_total r = int (length (filter (row_matches filters) table))
     \<and> r_items r = take (nat per_page) (drop (nat ((page - 1) * per_page))
                      (order_by_date_desc (filter (row_matches filters) table)))
     \<and> r_pages r = \<lceil>rat_of_int (r_total r) / rat_of_int per_page\<rceil>
     \<and> r_has_next r = (page < r_pages r)
     \<and> r_has_prev r = (1 < page)
     \<and> (r_total r = 45 \<and> per_page = 20 \<longrightarrow>
          r_pages r = 3 \<and> (page = 3 \<longrightarrow> length (r_items r) = 5 \<and> \<not> r_has_next r \<and> r_has_prev r))"
proof -
  have pp: "0 < per_page" "per_page \<noteq> 0" "\<not> per_page < 0" using assms by auto
  show ?thesis
    unfolding search_articles_def Let_def sql_limit_def sql_offset_def
    using pp by (auto simp: pages_ceiling [symmetric] length_order_by_date_desc)
qed

lemma sample45_matching:
  "filter (row_matches high_only) sample45 = map (\<lambda>i. sample_row (Suc i) ''t'' ''u'' ''high'' (int i)) [0..<45]"
  unfolding sample45_def
  by (simp add: row_matches_def conditions_def high_only_def no_filters_def sample_row_def filter_map o_def)

theorem search_articles_pagination_witness:
  "(1::int) \<le> 3 \<and> (1::int) \<le> 20
   \<and> (\<exists>r. search_articles sample45 high_only 3 20 = Inr r \<and> r_total r = 45 \<and> r_pages r = 3
          \<and> length (r_items r) = 5 \<and> \<not> r_has_next r \<and> r_has_prev r)"
  using search_articles_pagination [of 3 20 sample45 high_only]
  by (auto simp add: sample45_matching)

section \<open>The store\<close>

lemma save_loop_keeps:
  "save_loop eng now k ds s c = (s', r) \<Longrightarrow> stored s' = stored s \<and> txn s' = txn s"
proof (induction ds arbitrary: k s c)
  case Nil
  then show ?case by simp
next
  case (Cons d ds)
  then show ?case
    by (cases "d_url d") (auto split: if_splits dest!: Cons.IH)
qed

lemma fresh_Cons:
  "fresh table (d # ds) = (if get_or (d_url d) [] \<in> set (map a_url table) then fresh table ds else d # fresh table ds)"
  by (simp add: fresh_def)

lemma save_loop_ok:
  assumes "\<forall>d\<in>set ds. d_url d \<noteq> None" "\<forall>i<length ds. select_ok eng (k + i)"
  shows "save_loop eng now k ds s c =
     (s\<lparr>added := added s @ map (new_article now) (fresh (txn s) ds)\<rparr>,
      Inr (c + length (fresh (txn s) ds)))"
  using assms
proof (induction ds arbitrary: k s c)
  case Nil
  then show ?case by (simp add: fresh_def)
next
  case (Cons d ds)
  from Cons.prems(1) obtain u where u: "d_url d = Some u" by auto
  have sel: "select_ok eng k" using Cons.prems(2) by (auto dest: spec [of _ 0])
  have rest: "\<forall>i<length ds. select_ok eng (Suc k + i)"
  proof (intro allI impI)
    fix i assume "i < length ds"
    then have "Suc i < length (d # ds)" by simp
    then have "select_ok eng (k + Suc i)" using Cons.prems(2) by blast
    then show "select_ok eng (Suc k + i)" by simp
  qed
  have all: "\<forall>d\<in>set ds. d_url d \<noteq> None" using Cons.prems(1) by simp
  show ?case
    using Cons.IH [OF all rest] u sel
    by (simp add: fresh_Cons get_or_def)
qed

lemma save_loop_fail:
  assumes "\<not> ((\<forall>d\<in>set ds. d_url d \<noteq> None) \<and> (\<forall>i<length ds. select_ok eng (k + i)))"
  shows "\<exists>s' e. save_loop eng now k ds s c = (s', Inl e)"
  using assms
proof (induction ds arbitrary: k s c)
  case Nil
  then show ?case by simp
next
  case (Cons d ds)
  show ?case
  proof (cases "d_url d")
    case None
    then show ?thesis by simp
  next
    case (Some u)
    show ?thesis
    proof (cases "select_ok eng k")
      case False
      then show ?thesis using Some by simp
    next
      case True
      have "\<not> ((\<forall>d\<in>set ds. d_url d \<noteq> None) \<and> (\<forall>i<length ds. select_ok eng (Suc k + i)))"
      proof
        assume a: "(\<forall>d\<in>set ds. d_url d \<noteq> None) \<and> (\<forall>i<length ds. select_ok eng (Suc k + i))"
        have "\<forall>i<length (d # ds). select_ok eng (k + i)"
        proof (intro allI impI)
          fix i assume i: "i < length (d # ds)"
          show "select_ok eng (k + i)"
          proof (cases i)
            case 0
            then show ?thesis using True by simp
          next
            case (Suc j)
            then have "j < length ds" using i by simp
            then have "select_ok eng (Suc k + j)" using a by blast
            then show ?thesis using Suc by simp
          qed
        qed
        with a Some Cons.prems show False by auto
      qed
      from Cons.IH [OF this] show ?thesis using Some True by (auto split: if_splits)
    qed
  qed
qed

lemma flush_rows_ok:
  assumes "\<forall>i<length as. insert_ok eng (k + i)" "distinct (map a_url as)"
    "set (map a_url as) \<inter> set (map a_url rows) = {}"
  shows "\<exists>new. flush_rows eng k as rows = (rows @ new, [], None)
           \<and> list_all2 (\<lambda>r a. \<exists>i. r = a\<lparr>a_id := i\<rparr>) new as"
  using assms
proof (induction as arbitrary: k rows)
  case Nil
  then show ?case by simp
next
  case (Cons a as)
  have ins: "insert_ok eng k" using Cons.prems(1) by (auto dest: spec [of _ 0])
  have rest: "\<forall>i<length as. insert_ok eng (Suc k + i)"
  proof (intro allI impI)
    fix i assume "i < length as"
    then have "Suc i < length (a # as)" by simp
    then have "insert_ok eng (k + Suc i)" using Cons.prems(1) by blast
    then show "insert_ok eng (Suc k + i)" by simp
  qed
  have new: "a_url a \<notin> set (map a_url rows)" using Cons.prems(3) by auto
  have d: "distinct (map a_url as)" using Cons.prems(2) by simp
  have disj: "set (map a_url as) \<inter> set (map a_url (rows @ [a\<lparr>a_id := next_id rows\<rparr>])) = {}"
    using Cons.prems(2,3) by auto
  from Cons.IH [OF rest d disj] obtain new' where
    n: "flush_rows eng (Suc k) as (rows @ [a\<lparr>a_id := next_id rows\<rparr>]) = ((rows @ [a\<lparr>a_id := next_id rows\<rparr>]) @ new', [], None)"
    and l: "list_all2 (\<lambda>r a. \<exists>i. r = a\<lparr>a_id := i\<rparr>) new' as" by blast
  show ?case
    apply (rule exI [of _ "a\<lparr>a_id := next_id rows\<rparr> # new'"])
    using ins new n l by auto
qed

lemma flush_rows_fail:
  assumes "\<not> ((\<forall>i<length as. insert_ok eng (k + i)) \<and> distinct (map a_url as)
    \<and> set (map a_url as) \<inter> set (map a_url rows) = {})"
  shows "\<exists>rows' left e. flush_rows eng k as rows = (rows', left, Some e)"
  using assms
proof (induction as arbitrary: k rows)
  case Nil
  then show ?case by simp
next
  case (Cons a as)
  show ?case
  proof (cases "insert_ok eng k \<and> a_url a \<notin> set (map a_url rows)")
    case False
    then show ?thesis by auto
  next
    case True
    have "\<not> ((\<forall>i<length as. insert_ok eng (Suc k + i)) \<and> distinct (map a_url as)
      \<and> set (map a_url as) \<inter> set (map a_url (rows @ [a\<lparr>a_id := next_id rows\<rparr>])) = {})"
    proof
      assume a: "(\<forall>i<length as. insert_ok eng (Suc k + i)) \<and> distinct (map a_url as)
        \<and> set (map a_url as) \<inter> set (map a_url (rows @ [a\<lparr>a_id := next_id rows\<rparr>])) = {}"
      have "\<forall>i<length (a # as). insert_ok eng (k + i)"
      proof (intro allI impI)
        fix i assume i: "i < length (a # as)"
        show "insert_ok eng (k + i)"
        proof (cases i)
          case 0
          then show ?thesis using True by simp
        next
          case (Suc j)
          then have "j < length as" using i by simp
          then have "insert_ok eng (Suc k + j)" using a by blast
          then show ?thesis using Suc by simp
        qed
      qed
      moreover have "distinct (map a_url (a # as))" using a by auto
      moreover have "set (map a_url (a # as)) \<inter> set (map a_url rows) = {}" using a True by auto
      ultimately show False using Cons.prems by blast
    qed
    from Cons.IH [OF this] show ?thesis using True by auto
  qed
qed


lemma list_all_upt: "list_all P [0..<n] = (\<forall>i<n. P (0 + i))"
  by (auto simp: list_all_iff)

lemma a_url_new_article: "a_url (new_article now d) = get_or (d_url d) []"
  by (simp add: new_article_def)

lemma save_articles_ok:
  assumes "write_ok eng table batch"
  shows "\<exists>new. save_articles eng now table batch = (table @ new, Inr (length new))
           \<and> list_all2 (\<lambda>r d. \<exists>i. r = (new_article now d)\<lparr>a_id := i\<rparr>) new (fresh table batch)"
proof -
  from assms have urls: "\<forall>d\<in>set batch. d_url d \<noteq> None"
    and sel: "\<forall>i<length batch. select_ok eng (0 + i)"
    and ins: "\<forall>i<length (fresh table batch). insert_ok eng (0 + i)"
    and dist: "distinct (map (\<lambda>d. get_or (d_url d) []) (fresh table batch))"
    and com: "commit_ok eng"
    by (simp_all add: write_ok_def list_all_upt) (simp add: list_all_iff)
  let ?as = "map (new_article now) (fresh table batch)"
  have loop: "save_loop eng now 0 batch (get_session table) 0 =
      (\<lparr>stored = table, txn = table, added = ?as\<rparr>, Inr (length (fresh table batch)))"
    using save_loop_ok [OF urls sel, of now "get_session table" 0] by (simp add: get_session_def)
  have "\<exists>new. flush_rows eng 0 ?as table = (table @ new, [], None)
           \<and> list_all2 (\<lambda>r a. \<exists>i. r = a\<lparr>a_id := i\<rparr>) new ?as"
  proof (rule flush_rows_ok)
    show "\<forall>i<length ?as. insert_ok eng (0 + i)" using ins by simp
    show "distinct (map a_url ?as)" using dist by (simp add: o_def a_url_new_article)
    show "set (map a_url ?as) \<inter> set (map a_url table) = {}"
      by (auto simp: a_url_new_article fresh_def)
  qed
  then obtain new where fl: "flush_rows eng 0 ?as table = (table @ new, [], None)"
    and l: "list_all2 (\<lambda>r a. \<exists>i. r = a\<lparr>a_id := i\<rparr>) new ?as" by blast
  have len: "length new = length (fresh table batch)" using l by (auto dest: list_all2_lengthD)
  have "save_articles eng now table batch = (table @ new, Inr (length new))"
    unfolding save_articles_def loop by (simp add: commit_def flush_def fl com len)
  moreover have "list_all2 (\<lambda>r d. \<exists>i. r = (new_article now d)\<lparr>a_id := i\<rparr>) new (fresh table batch)"
    using l by (simp add: list_all2_map2)
  ultimately show ?thesis by blast
qed

lemma save_articles_fail:
  assumes "\<not> write_ok eng table batch"
  shows "\<exists>e. save_articles eng now table batch = (table, Inl e)"
proof (cases "(\<forall>d\<in>set batch. d_url d \<noteq> None) \<and> (\<forall>i<length batch. select_ok eng (0 + i))")
  case False
  from save_loop_fail [OF this, of now "get_session table" 0] obtain s' e where
    l: "save_loop eng now 0 batch (get_session table) 0 = (s', Inl e)" by blast
  from save_loop_keeps [OF l] have "stored s' = table" by (simp add: get_session_def)
  then show ?thesis unfolding save_articles_def l by (simp add: rollback_def)
next
  case True
  let ?as = "map (new_article now) (fresh table batch)"
  have loop: "save_loop eng now 0 batch (get_session table) 0 =
      (\<lparr>stored = table, txn = table, added = ?as\<rparr>, Inr (length (fresh table batch)))"
    using save_loop_ok [of batch eng 0 now "get_session table" 0] True by (simp add: get_session_def)
  show ?thesis
  proof (cases "(\<forall>i<length ?as. insert_ok eng (0 + i)) \<and> distinct (map a_url ?as)
      \<and> set (map a_url ?as) \<inter> set (map a_url table) = {}")
    case False
    from flush_rows_fail [OF this] obtain rows' left e where
      "flush_rows eng 0 ?as table = (rows', left, Some e)" by blast
    then show ?thesis unfolding save_articles_def loop
      by (simp add: commit_def flush_def rollback_def)
  next
    case ok: True
    then have "\<not> commit_ok eng"
      using assms True by (auto simp: write_ok_def list_all_upt list_all_iff o_def a_url_new_article)
    moreover from flush_rows_ok [of ?as eng 0 table] ok obtain new where
      "flush_rows eng 0 ?as table = (table @ new, [], None)" by blast
    ultimately show ?thesis unfolding save_articles_def loop
      by (simp add: commit_def flush_def rollback_def)
  qed
qed

lemma save_articles_cases:
  "save_articles eng now table batch = (table', Inl e) \<Longrightarrow> table' = table \<and> \<not> write_ok eng table batch"
  "save_articles eng now table batch = (table', Inr n) \<Longrightarrow> write_ok eng table batch"
  using save_articles_ok [of eng table batch now] save_articles_fail [of eng table batch now]
  by (cases "write_ok eng table batch"; auto)+

lemmas store_eval = save_articles_def get_session_def commit_def flush_def rollback_def
  new_article_def next_id_def healthy_def second_insert_fails_def store1_def sample_row_def
  sample_data_def get_or_def fresh_def

lemma store1_writes:
  "save_articles healthy 9 store1 [sample_data ''new title'' ''a'', sample_data ''other'' ''b'']
     = (store1 @ [(new_article 9 (sample_data ''other'' ''b''))\<lparr>a_id := 2\<rparr>], Inr 1)"
  "save_articles second_insert_fails 9 store1 [sample_data ''x'' ''b'', sample_data ''y'' ''c'']
     = (store1, Inl OperationalError)"
  "save_articles healthy 9 store1 [sample_data ''x'' ''b'', sample_data ''y'' ''b'']
     = (store1, Inl IntegrityError)"
  by (simp_all add: store_eval)

text \<open>
  C4. A write of a batch is all or nothing. When the engine fails during the write (a
  \<open>SELECT\<close> of the loop, an \<open>INSERT\<close> of the flush or the \<open>COMMIT\<close>), the call raises
  an error and the committed rows are the ones before the call. Whenever the call raises
  an error, the committed rows are unchanged. When it returns a count, the committed rows
  are the old ones followed by one new row for every record of the batch whose url was not
  stored, and the count is the number of these rows.
\<close>

theorem save_articles_all_or_nothing:
  "((\<not> commit_ok eng \<or> (\<exists>k<length batch. \<not> select_ok eng k)
      \<or> (\<exists>k<length (fresh table batch). \<not> insert_ok eng k))
     \<longrightarrow> (\<exists>e. save_articles eng now table batch = (table, Inl e)))
   \<and> (save_articles eng now table batch = (table', Inl e) \<longrightarrow> table' = table)
   \<and> (save_articles eng now table batch = (table', Inr n) \<longrightarrow>
        (\<exists>new. table' = table @ new \<and> n = length new
           \<and> list_all2 (\<lambda>r d. \<exists>i. r = (new_article now d)\<lparr>a_id := i\<rparr>) new (fresh table batch)))"
proof (intro conjI impI)
  assume "\<not> commit_ok eng \<or> (\<exists>k<length batch. \<not> select_ok eng k)
      \<or> (\<exists>k<length (fresh table batch). \<not> insert_ok eng k)"
  then have "\<not> write_ok eng table batch"
    by (auto simp: write_ok_def list_all_upt)
  then show "\<exists>e. save_articles eng now table batch = (table, Inl e)" by (rule save_articles_fail)
next
  assume "save_articles eng now table batch = (table', Inl e)"
  then show "table' = table" by (simp add: save_articles_cases)
next
  assume a: "save_articles eng now table batch = (table', Inr n)"
  then have "write_ok eng table batch" by (rule save_articles_cases)
  from save_articles_ok [OF this, of now] a show "\<exists>new. table' = table @ new \<and> n = length new
           \<and> list_all2 (\<lambda>r d. \<exists>i. r = (new_article now d)\<lparr>a_id := i\<rparr>) new (fresh table batch)"
    by auto
qed

theorem save_articles_all_or_nothing_witness:
  "(\<exists>k<length (fresh store1 [sample_data ''x'' ''b'', sample_data ''y'' ''c'']).
       \<not> insert_ok second_insert_fails k)
   \<and> save_articles second_insert_fails 9 store1 [sample_data ''x'' ''b'', sample_data ''y'' ''c'']
       = (store1, Inl OperationalError)
   \<and> save_articles healthy 9 store1 [sample_data ''x'' ''b'', sample_data ''y'' ''b'']
       = (store1, Inl IntegrityError)"
proof -
  have f: "\<exists>k<length (fresh store1 [sample_data ''x'' ''b'', sample_data ''y'' ''c'']).
       \<not> insert_ok second_insert_fails k"
    by (rule exI [of _ 1]) (simp add: store_eval)
  with save_articles_all_or_nothing [of second_insert_fails
      "[sample_data ''x'' ''b'', sample_data ''y'' ''c'']" store1 9 store1 OperationalError 0]
  have "\<exists>e. save_articles second_insert_fails 9 store1 [sample_data ''x'' ''b'', sample_data ''y'' ''c'']
       = (store1, Inl e)" by blast
  with f show ?thesis unfolding store1_writes by simp
qed

lemma fresh_after:
  assumes "list_all2 (\<lambda>r d. \<exists>i. r = (new_article now d)\<lparr>a_id := i\<rparr>) new (fresh table batch)"
  shows "fresh (table @ new) batch = []"
proof -
  have "map a_url new = map (\<lambda>d. get_or (d_url d) []) (fresh table batch)"
    using assms by (induction rule: list_all2_induct) (auto simp: a_url_new_article)
  then have "set (map a_url new) = (\<lambda>d. get_or (d_url d) []) ` set (fresh table batch)" by simp
  then show ?thesis by (auto simp: fresh_def filter_empty_conv)
qed

lemma write_ok_healthy:
  "write_ok healthy table batch =
     (list_all (\<lambda>d. d_url d \<noteq> None) batch
      \<and> distinct (map (\<lambda>d. get_or (d_url d) []) (fresh table batch)))"
  by (simp add: write_ok_def healthy_def list_all_iff)

lemma second_write:
  assumes "save_articles healthy now table batch = (table', Inr n)"
  shows "save_articles healthy now' table' batch = (table', Inr 0)"
proof -
  from assms have ok: "write_ok healthy table batch" by (rule save_articles_cases)
  from save_articles_ok [OF ok, of now] assms obtain new where
    t: "table' = table @ new"
    and l: "list_all2 (\<lambda>r d. \<exists>i. r = (new_article now d)\<lparr>a_id := i\<rparr>) new (fresh table batch)"
    by auto
  have f: "fresh table' batch = []" unfolding t using l by (rule fresh_after)
  have "write_ok healthy table' batch" using ok by (simp add: write_ok_healthy f)
  from save_articles_ok [OF this, of now'] show ?thesis by (simp add: f)
qed

text \<open>
  C3. Writing is idempotent by url, on an engine that does not fail. Writing a record
  whose url a stored row has changes no row, raises no error and returns the count 0. When
  a write of a batch returns, its count is the number of records whose url was not stored,
  the rows stored before are still there, and writing the same batch again returns 0 and
  leaves the rows as they are. In every case the rows after the second write are the rows
  after the first.
\<close>

theorem save_articles_idempotent:
  "(d_url d = Some u \<and> u \<in> set (map a_url table)
      \<longrightarrow> save_articles healthy now table [d] = (table, Inr 0))
   \<and> (save_articles healthy now table batch = (table', Inr n)
      \<longrightarrow> n = length (fresh table batch) \<and> prefix table table'
          \<and> save_articles healthy now' table' batch = (table', Inr 0))
   \<and> fst (save_articles healthy now' (fst (save_articles healthy now table batch)) batch)
       = fst (save_articles healthy now table batch)"
proof (intro conjI impI)
  assume a: "d_url d = Some u \<and> u \<in> set (map a_url table)"
  then have f: "fresh table [d] = []" by (simp add: fresh_def get_or_def)
  have "write_ok healthy table [d]" using a by (simp add: write_ok_healthy f)
  from save_articles_ok [OF this, of now] show "save_articles healthy now table [d] = (table, Inr 0)"
    by (simp add: f)
next
  assume a: "save_articles healthy now table batch = (table', Inr n)"
  then have ok: "write_ok healthy table batch" by (rule save_articles_cases)
  from save_articles_ok [OF ok, of now] a show "n = length (fresh table batch)"
    by (auto dest: list_all2_lengthD)
  from save_articles_ok [OF ok, of now] a show "prefix table table'" by auto
  from a show "save_articles healthy now' table' batch = (table', Inr 0)" by (rule second_write)
next
  show "fst (save_articles healthy now' (fst (save_articles healthy now table batch)) batch)
       = fst (save_articles healthy now table batch)"
  proof (cases "write_ok healthy table batch")
    case True
    from save_articles_ok [OF True, of now] obtain new where
      s: "save_articles healthy now table batch = (table @ new, Inr (length new))" by blast
    from second_write [OF s, of now'] show ?thesis by (simp add: s)
  next
    case False
    from save_articles_fail [OF False, of now] save_articles_fail [OF False, of now']
    show ?thesis by auto
  qed
qed


theorem save_articles_idempotent_witness:
  "d_url (sample_data ''new title'' ''a'') = Some ''a'' \<and> ''a'' \<in> set (map a_url store1)
   \<and> save_articles healthy 9 store1 [sample_data ''new title'' ''a''] = (store1, Inr 0)
   \<and> (\<exists>t. save_articles healthy 9 store1 [sample_data ''new title'' ''a'', sample_data ''other'' ''b'']
              = (t, Inr 1)
          \<and> save_articles healthy 10 t [sample_data ''new title'' ''a'', sample_data ''other'' ''b'']
              = (t, Inr 0))"
  using save_articles_idempotent [of "sample_data ''new title'' ''a''" "''a''" store1 9
      "[sample_data ''new title'' ''a'', sample_data ''other'' ''b'']"
      "store1 @ [(new_article 9 (sample_data ''other'' ''b''))\<lparr>a_id := 2\<rparr>]" 1 10]
  unfolding store1_writes
  by (simp add: sample_data_def store1_def sample_row_def)

end
